theory Spec2Isabelle
  imports Complex_Main "HOL-Library.Log_Nat"
begin

section \<open>Python floats\<close>

text \<open>
  A score is a Python \<^verbatim>\<open>float\<close>, an IEEE 754 double: a finite value, an infinity or a
  NaN. \<open>Finite x\<close> is the finite float of value \<open>x\<close>; the two zeros of the format
  compare equal in Python and are both \<open>Finite 0\<close>. The comparisons are Python's
  \<^verbatim>\<open><\<close> and \<^verbatim>\<open><=\<close>: every comparison with a NaN is false.
\<close>

datatype pyfloat = Finite real | PosInf | NegInf | NaN

fun float_lt :: "pyfloat \<Rightarrow> pyfloat \<Rightarrow> bool" where
  "float_lt (Finite x) (Finite y) = (x < y)"
| "float_lt (Finite x) PosInf = True"
| "float_lt NegInf (Finite y) = True"
| "float_lt NegInf PosInf = True"
| "float_lt a b = False"

fun float_le :: "pyfloat \<Rightarrow> pyfloat \<Rightarrow> bool" where
  "float_le (Finite x) (Finite y) = (x \<le> y)"
| "float_le NaN b = False"
| "float_le a NaN = False"
| "float_le a PosInf = True"
| "float_le NegInf b = True"
| "float_le a b = False"

text \<open>
  Arithmetic on floats rounds the exact result to the nearest double, a tie going to
  the double with the even significand. \<open>round_half_even\<close> rounds a real to an
  integer in this way. A finite double is an integer multiple of \<open>1 / 2 ^ 1074\<close> with
  a significand of at most 53 bits, so the rounding works on \<open>y = x * 2 ^ 1074\<close>:
  the doubles around \<open>y\<close> are the multiples of \<open>2 ^ k\<close>, where \<open>k\<close> is the bit length
  of the integer part of \<open>\<bar>y\<bar>\<close> less 53, and 0 for the subnormal numbers, whose
  spacing is the smallest one; \<open>y\<close> is rounded to such a multiple.
\<close>

definition round_half_even :: "real \<Rightarrow> int" where
  "round_half_even y =
     (if y - of_int \<lfloor>y\<rfloor> < 1 / 2 then \<lfloor>y\<rfloor>
      else if 1 / 2 < y - of_int \<lfloor>y\<rfloor> then \<lfloor>y\<rfloor> + 1
      else if even \<lfloor>y\<rfloor> then \<lfloor>y\<rfloor> else \<lfloor>y\<rfloor> + 1)"

definition ulp_exponent :: "real \<Rightarrow> nat" where
  "ulp_exponent y = nat (bitlen \<lfloor>\<bar>y\<bar>\<rfloor> - 53)"

definition round_scaled :: "real \<Rightarrow> real" where
  "round_scaled y = of_int (round_half_even (y / 2 ^ ulp_exponent y)) * 2 ^ ulp_exponent y"

definition round_double :: "real \<Rightarrow> real" where
  "round_double x = round_scaled (x * 2 ^ 1074) / 2 ^ 1074"

text \<open>
  A rounded result of magnitude \<open>2 ^ 1024\<close> or more is beyond the greatest double:
  the operation returns the infinity of its sign.
\<close>

definition float_of_real :: "real \<Rightarrow> pyfloat" where
  "float_of_real x =
     (if 2 ^ 1024 \<le> round_double x then PosInf
      else if round_double x \<le> - (2 ^ 1024) then NegInf
      else Finite (round_double x))"

text \<open>
  Python's \<^verbatim>\<open>a / b\<close> on floats raises \<^verbatim>\<open>ZeroDivisionError\<close> when \<open>b\<close> is zero,
  which is \<open>None\<close> here, and returns the IEEE quotient otherwise.
\<close>

fun py_truediv :: "pyfloat \<Rightarrow> pyfloat \<Rightarrow> pyfloat option" where
  "py_truediv a (Finite b) =
     (if b = 0 then None
      else (case a of
              Finite x \<Rightarrow> Some (float_of_real (x / b))
            | PosInf \<Rightarrow> Some (if 0 < b then PosInf else NegInf)
            | NegInf \<Rightarrow> Some (if 0 < b then NegInf else PosInf)
            | NaN \<Rightarrow> Some NaN))"
| "py_truediv (Finite x) PosInf = Some (Finite 0)"
| "py_truediv (Finite x) NegInf = Some (Finite 0)"
| "py_truediv a b = Some NaN"

section \<open>Data model\<close>

text \<open>
  The search service of \<^verbatim>\<open>app/services/search_service.py\<close> works on the objects
  of \<^verbatim>\<open>app/models/search_model.py\<close>. A search hit carries a metadata object with a
  \<^verbatim>\<open>doc_id\<close> (a Python \<^verbatim>\<open>str\<close>) and a \<^verbatim>\<open>chunk_index\<close> (a Python \<^verbatim>\<open>int\<close>),
  a \<^verbatim>\<open>score\<close> (a Python \<^verbatim>\<open>float\<close>) and further document fields that the service
  never looks at (the type parameter \<open>'p\<close>). Each hit a collaborator returns is an
  object of its own, so a list of hits is a list of values.
\<close>

type_synonym vector = "real list"

record Metadata =
  doc_id :: string
  chunk_index :: int

record 'p SearchResult =
  metadata :: Metadata
  score :: pyfloat
  payload :: 'p

record SearchRequest =
  query :: string
  top_k :: int

record 'p SearchResponse =
  results :: "'p SearchResult list"

section \<open>Collaborators\<close>

text \<open>
  The embedding model, the vector store and the reranker are module-level objects
  imported by the service; \<^verbatim>\<open>MASTER_INDEX\<close> is a constant of the configuration module.
  They are parameters of the model. A call either raises an exception of type \<open>'e\<close>
  (\<open>Inl\<close>) or returns (\<open>Inr\<close>). No operation of the service calls the same collaborator
  function twice, so a function of the arguments describes each of them.
\<close>

record ('e, 'p) env =
  MASTER_INDEX :: string
  embed_query :: "string \<Rightarrow> 'e + vector"
  similarity_search :: "vector \<Rightarrow> string \<Rightarrow> int \<Rightarrow> 'e + 'p SearchResult list"
  bm25_search :: "string \<Rightarrow> string \<Rightarrow> int \<Rightarrow> 'e + 'p SearchResult list"
  hybrid_search_with_pipeline ::
    "string \<Rightarrow> vector \<Rightarrow> string \<Rightarrow> string \<Rightarrow> int \<Rightarrow> 'e + 'p SearchResult list"
  rerank_results :: "string \<Rightarrow> 'p SearchResult list \<Rightarrow> int \<Rightarrow> 'e + 'p SearchResult list"

text \<open>
  Every collaborator call the service issues is recorded, with its arguments, in the
  order of the calls. An operation returns this trace together with its outcome: the
  exception that left it, or its response. The progress lines that the operations
  print are no part of the outcome and are left out.
\<close>

datatype 'p call =
    EmbedQuery string
  | SimilaritySearch vector string int
  | Bm25Search string string int
  | HybridSearchWithPipeline string vector string string int
  | RerankResults string "'p SearchResult list" int

type_synonym ('e, 'p) outcome = "'p call list \<times> ('e + 'p SearchResponse)"

definition to_response :: "'p SearchResult list \<Rightarrow> 'p SearchResponse" where
  "to_response rs = \<lparr>results = rs\<rparr>"

section \<open>Vector and keyword search\<close>

definition vector_search :: "('e, 'p) env \<Rightarrow> SearchRequest \<Rightarrow> ('e, 'p) outcome" where
  "vector_search env request =
     (case embed_query env (query request) of
        Inl e \<Rightarrow> ([EmbedQuery (query request)], Inl e)
      | Inr query_vec \<Rightarrow>
          (case similarity_search env query_vec (MASTER_INDEX env) (top_k request) of
             Inl e \<Rightarrow>
               ([EmbedQuery (query request),
                 SimilaritySearch query_vec (MASTER_INDEX env) (top_k request)], Inl e)
           | Inr rs \<Rightarrow>
               ([EmbedQuery (query request),
                 SimilaritySearch query_vec (MASTER_INDEX env) (top_k request)],
                Inr (to_response rs))))"

text \<open>
  Python's \<^verbatim>\<open>max\<close> of a non-empty list keeps the first item and replaces it by a
  later one only when that one is greater. The service calls it under \<^verbatim>\<open>if results:\<close>
  only; on the empty list Python raises, which is \<open>None\<close> here.
\<close>

fun py_max :: "pyfloat list \<Rightarrow> pyfloat option" where
  "py_max [] = None"
| "py_max (x # xs) = Some (fold (\<lambda>y m. if float_lt m y then y else m) xs x)"

text \<open>
  The normalisation of the keyword search: when the list is non-empty and its greatest
  score is greater than 0, the loop assigns to every hit the quotient of its score by
  that maximum. The division could raise on a zero divisor only, and the divisor is
  greater than 0 (lemma \<open>py_truediv_positive\<close> below), so the loop runs to its end.
\<close>

definition normalize_scores :: "'p SearchResult list \<Rightarrow> 'p SearchResult list" where
  "normalize_scores rs =
     (if rs \<noteq> [] then
        (case py_max (map score rs) of
           None \<Rightarrow> rs
         | Some max_score \<Rightarrow>
             if float_lt (Finite 0) max_score then
               map (\<lambda>r. case py_truediv (score r) max_score of
                           Some q \<Rightarrow> r\<lparr>score := q\<rparr>
                         | None \<Rightarrow> r) rs
             else rs)
      else rs)"

definition keyword_search :: "('e, 'p) env \<Rightarrow> SearchRequest \<Rightarrow> ('e, 'p) outcome" where
  "keyword_search env request =
     (case bm25_search env (query request) (MASTER_INDEX env) (top_k request) of
        Inl e \<Rightarrow> ([Bm25Search (query request) (MASTER_INDEX env) (top_k request)], Inl e)
      | Inr rs \<Rightarrow>
          ([Bm25Search (query request) (MASTER_INDEX env) (top_k request)],
           Inr (to_response (normalize_scores rs))))"

section \<open>Engine-native hybrid search\<close>

text \<open>
  The handler of the \<^verbatim>\<open>try\<close> block prints the exception and its traceback and ends
  with a bare \<^verbatim>\<open>raise\<close>, which raises the caught exception again.
\<close>

definition hybrid_search_native :: "('e, 'p) env \<Rightarrow> SearchRequest \<Rightarrow> ('e, 'p) outcome" where
  "hybrid_search_native env request =
     (case embed_query env (query request) of
        Inl e \<Rightarrow> ([EmbedQuery (query request)], Inl e)
      | Inr query_vec \<Rightarrow>
          (case hybrid_search_with_pipeline env (query request) query_vec (MASTER_INDEX env)
                  ''hybrid-search-pipeline'' (top_k request) of
             Inl e \<Rightarrow>
               ([EmbedQuery (query request),
                 HybridSearchWithPipeline (query request) query_vec (MASTER_INDEX env)
                   ''hybrid-search-pipeline'' (top_k request)], Inl e)
           | Inr rs \<Rightarrow>
               ([EmbedQuery (query request),
                 HybridSearchWithPipeline (query request) query_vec (MASTER_INDEX env)
                   ''hybrid-search-pipeline'' (top_k request)],
                Inr (to_response rs))))"

section \<open>Reranked hybrid search\<close>

text \<open>
  The deduplication key is the f-string \<^verbatim>\<open>f"{doc_id}_{chunk_index}"\<close>: the document
  identifier, an underscore and the decimal numeral of the chunk index, as Python's
  \<^verbatim>\<open>str\<close> writes an \<^verbatim>\<open>int\<close>.
\<close>

definition digit_char :: "nat \<Rightarrow> char" where
  "digit_char d = ''0123456789'' ! d"

fun str_nat :: "nat \<Rightarrow> string" where
  "str_nat n = (if n < 10 then [digit_char n] else str_nat (n div 10) @ [digit_char (n mod 10)])"

declare str_nat.simps [simp del]

definition str_int :: "int \<Rightarrow> string" where
  "str_int i = (if i < 0 then CHR ''-'' # str_nat (nat (- i)) else str_nat (nat i))"

definition doc_key :: "'p SearchResult \<Rightarrow> string" where
  "doc_key doc = doc_id (metadata doc) @ ''_'' @ str_int (chunk_index (metadata doc))"

text \<open>
  One turn of either merging loop, on the pair of the list \<^verbatim>\<open>combined_docs\<close> and the
  set \<^verbatim>\<open>doc_ids_chunks\<close>: a hit whose key is in the set is skipped, any other hit is
  appended and its key added.
\<close>

definition merge_step ::
  "'p SearchResult \<Rightarrow> 'p SearchResult list \<times> string set \<Rightarrow> 'p SearchResult list \<times> string set"
where
  "merge_step doc st =
     (case st of (combined_docs, doc_ids_chunks) \<Rightarrow>
        if doc_key doc \<in> doc_ids_chunks then (combined_docs, doc_ids_chunks)
        else (combined_docs @ [doc], insert (doc_key doc) doc_ids_chunks))"

definition combine_docs :: "'p SearchResult list \<Rightarrow> 'p SearchResult list \<Rightarrow> 'p SearchResult list" where
  "combine_docs vector_results bm25_results =
     fst (fold merge_step bm25_results (fold merge_step vector_results ([], {})))"

definition expanded_k :: "SearchRequest \<Rightarrow> int" where
  "expanded_k request = max (top_k request * 3) 30"

definition hybrid_search_reranked :: "('e, 'p) env \<Rightarrow> SearchRequest \<Rightarrow> ('e, 'p) outcome" where
  "hybrid_search_reranked env request =
     (case embed_query env (query request) of
        Inl e \<Rightarrow> ([EmbedQuery (query request)], Inl e)
      | Inr query_vec \<Rightarrow>
          (case similarity_search env query_vec (MASTER_INDEX env) (expanded_k request) of
             Inl e \<Rightarrow>
               ([EmbedQuery (query request),
                 SimilaritySearch query_vec (MASTER_INDEX env) (expanded_k request)], Inl e)
           | Inr vector_results \<Rightarrow>
               (case bm25_search env (query request) (MASTER_INDEX env) (expanded_k request) of
                  Inl e \<Rightarrow>
                    ([EmbedQuery (query request),
                      SimilaritySearch query_vec (MASTER_INDEX env) (expanded_k request),
                      Bm25Search (query request) (MASTER_INDEX env) (expanded_k request)], Inl e)
                | Inr bm25_results \<Rightarrow>
                    (let combined_docs = combine_docs vector_results bm25_results in
                     if combined_docs = [] then
                       ([EmbedQuery (query request),
                         SimilaritySearch query_vec (MASTER_INDEX env) (expanded_k request),
                         Bm25Search (query request) (MASTER_INDEX env) (expanded_k request)],
                        Inr (to_response []))
                     else
                       (case rerank_results env (query request) combined_docs (top_k request) of
                          Inl e \<Rightarrow>
                            ([EmbedQuery (query request),
                              SimilaritySearch query_vec (MASTER_INDEX env) (expanded_k request),
                              Bm25Search (query request) (MASTER_INDEX env) (expanded_k request),
                              RerankResults (query request) combined_docs (top_k request)],
                             Inl e)
                        | Inr reranked_docs \<Rightarrow>
                            ([EmbedQuery (query request),
                              SimilaritySearch query_vec (MASTER_INDEX env) (expanded_k request),
                              Bm25Search (query request) (MASTER_INDEX env) (expanded_k request),
                              RerankResults (query request) combined_docs (top_k request)],
                             Inr (to_response reranked_docs)))))))"

section \<open>The identity of a candidate\<close>

text \<open>
  The specification identifies a retrievable unit by the pair of its \<^verbatim>\<open>doc_id\<close> and
  its \<^verbatim>\<open>chunk_index\<close>, and describes the merge of the reranked hybrid search in
  these terms: the vector results and then the keyword results are gone through in
  their order, and an item is taken only if its pair has not been seen before.
  \<open>keep_unseen\<close> is this description, to be compared with \<open>combine_docs\<close>, which is
  the code with its string keys.
\<close>

definition identity_key :: "'p SearchResult \<Rightarrow> string \<times> int" where
  "identity_key doc = (doc_id (metadata doc), chunk_index (metadata doc))"

fun keep_unseen :: "(string \<times> int) set \<Rightarrow> 'p SearchResult list \<Rightarrow> 'p SearchResult list" where
  "keep_unseen seen [] = []"
| "keep_unseen seen (doc # docs) =
     (if identity_key doc \<in> seen then keep_unseen seen docs
      else doc # keep_unseen (insert (identity_key doc) seen) docs)"

text \<open>
  Modelled from the spec: the contract of the reranker, which is not among the sources
  at hand. The specification has it return a reordered subset of the candidates it
  is given, with scores of its own: every identity occurs in its output at most as
  often as among the candidates.
\<close>

definition selection_of :: "'p SearchResult list \<Rightarrow> 'p SearchResult list \<Rightarrow> bool" where
  "selection_of out cands \<longleftrightarrow>
     (\<forall>k\<in>set (map identity_key out).
        count_list (map identity_key out) k \<le> count_list (map identity_key cands) k)"

definition key_string :: "string \<times> int \<Rightarrow> string" where
  "key_string k = fst k @ ''_'' @ str_int (snd k)"

section \<open>Request validation in front of the service\<close>

text \<open>
  Modelled from the spec: the validation of a request and the dispatch to one of the
  four operations. The request model \<^verbatim>\<open>app/models/search_model.py\<close> and the search
  router are not among the sources at hand; the service functions above take the
  request as it is and check nothing. The specification gives a request a non-empty
  query and a positive \<^verbatim>\<open>top_k\<close>, rejects any other request as a client-input error
  before any collaborator call, and passes the failure of a collaborator on as a
  server-side failure.
\<close>

datatype 'e failure = ClientInputError | ServerFailure 'e

datatype mode = VectorMode | KeywordMode | NativeHybridMode | RerankedHybridMode

definition valid_request :: "SearchRequest \<Rightarrow> bool" where
  "valid_request request \<longleftrightarrow> query request \<noteq> [] \<and> 0 < top_k request"

fun run_mode :: "mode \<Rightarrow> ('e, 'p) env \<Rightarrow> SearchRequest \<Rightarrow> ('e, 'p) outcome" where
  "run_mode VectorMode = vector_search"
| "run_mode KeywordMode = keyword_search"
| "run_mode NativeHybridMode = hybrid_search_native"
| "run_mode RerankedHybridMode = hybrid_search_reranked"

definition search ::
  "mode \<Rightarrow> ('e, 'p) env \<Rightarrow> SearchRequest \<Rightarrow> 'p call list \<times> ('e failure + 'p SearchResponse)"
where
  "search m env request =
     (if valid_request request then
        (case run_mode m env request of
           (calls, Inl e) \<Rightarrow> (calls, Inl (ServerFailure e))
         | (calls, Inr response) \<Rightarrow> (calls, Inr response))
      else ([], Inl ClientInputError))"

section \<open>Fixed collaborators for the worked examples\<close>

text \<open>
  The examples run the service against collaborators that answer with fixed lists:
  the embedding is a constant vector, each search returns the list given for it, and
  the reranker keeps the first \<^verbatim>\<open>top_k\<close> candidates. Exceptions are their messages.
  Two variants misbehave: a reranker that returns its first candidate twice, and a
  vector store whose pipeline call fails.
\<close>

definition hit :: "string \<Rightarrow> int \<Rightarrow> real \<Rightarrow> string \<Rightarrow> string SearchResult" where
  "hit d i s p = \<lparr>metadata = \<lparr>doc_id = d, chunk_index = i\<rparr>, score = Finite s, payload = p\<rparr>"

definition fixed_env ::
  "string SearchResult list \<Rightarrow> string SearchResult list \<Rightarrow> string SearchResult list \<Rightarrow>
   (string, string) env"
where
  "fixed_env vs bs hs =
     \<lparr>MASTER_INDEX = ''master'',
      embed_query = (\<lambda>q. Inr [1, 0]),
      similarity_search = (\<lambda>v i k. Inr vs),
      bm25_search = (\<lambda>q i k. Inr bs),
      hybrid_search_with_pipeline = (\<lambda>q v i p k. Inr hs),
      rerank_results = (\<lambda>q cs k. Inr (take (nat k) cs))\<rparr>"

definition repeating_reranker_env ::
  "string SearchResult list \<Rightarrow> string SearchResult list \<Rightarrow> (string, string) env"
where
  "repeating_reranker_env vs bs =
     (fixed_env vs bs [])\<lparr>rerank_results :=
        (\<lambda>q cs k. Inr (case cs of [] \<Rightarrow> [] | c # cs' \<Rightarrow> [c, c]))\<rparr>"

definition failing_pipeline_env :: "(string, string) env" where
  "failing_pipeline_env =
     (fixed_env [] [] [])\<lparr>hybrid_search_with_pipeline := (\<lambda>q v i p k. Inl ''connection refused'')\<rparr>"

definition alpha_request :: SearchRequest where
  "alpha_request = \<lparr>query = ''alpha'', top_k = 3\<rparr>"

definition scenario_vector :: "string SearchResult list" where
  "scenario_vector = [hit ''d1'' 0 0.9 ''vector'', hit ''d2'' 0 0.8 ''vector'']"

definition scenario_bm25 :: "string SearchResult list" where
  "scenario_bm25 = [hit ''d1'' 0 12 ''bm25'', hit ''d3'' 0 9 ''bm25'']"

section \<open>The key string determines the identity\<close>

text \<open>
  The numeral of an integer consists of digits after an optional minus sign, so the
  last underscore of a key separates the document identifier from the chunk index,
  whatever underscores the identifier has: two hits have the same key string exactly
  when they agree on both components.
\<close>

lemma digit_cases: "d < 10 \<Longrightarrow> d \<in> {0,1,2,3,4,5,6,7,8,9::nat}"
  by auto

lemma digit_char_code: "d < 10 \<Longrightarrow> (of_char (digit_char d) :: nat) = 48 + d"
  by (drule digit_cases) (auto simp: digit_char_def)

lemma digit_char_inj:
  assumes "d < 10" and "e < 10" and "digit_char d = digit_char e"
  shows "d = e"
proof -
  have "(of_char (digit_char d) :: nat) = 48 + d" and "(of_char (digit_char e) :: nat) = 48 + e"
    using assms(1,2) by (simp_all add: digit_char_code)
  with assms(3) show ?thesis by (metis add_left_cancel)
qed

lemma digit_char_not_sep: "d < 10 \<Longrightarrow> digit_char d \<noteq> CHR ''_''"
proof
  assume "d < 10" and "digit_char d = CHR ''_''"
  then have "(of_char (CHR ''_'') :: nat) = 48 + d"
    using digit_char_code [of d] by simp
  with \<open>d < 10\<close> show False by simp
qed

lemma digit_char_not_minus: "d < 10 \<Longrightarrow> digit_char d \<noteq> CHR ''-''"
proof
  assume "d < 10" and "digit_char d = CHR ''-''"
  then have "(of_char (CHR ''-'') :: nat) = 48 + d"
    using digit_char_code [of d] by simp
  then show False by simp
qed

lemma str_nat_nonempty: "str_nat n \<noteq> []"
  by (subst str_nat.simps) simp

lemma str_nat_chars: "c \<in> set (str_nat n) \<Longrightarrow> c \<noteq> CHR ''_'' \<and> c \<noteq> CHR ''-''"
proof (induction n rule: str_nat.induct)
  case (1 n)
  show ?case
  proof (cases "n < 10")
    case True
    with "1.prems" show ?thesis
      by (subst (asm) str_nat.simps) (auto simp: digit_char_not_sep digit_char_not_minus)
  next
    case False
    with "1.prems" have "c \<in> set (str_nat (n div 10)) \<or> c = digit_char (n mod 10)"
      by (subst (asm) str_nat.simps) auto
    with False "1.IH" show ?thesis
      by (auto simp: digit_char_not_sep digit_char_not_minus)
  qed
qed

lemma str_nat_inj: "str_nat n = str_nat m \<Longrightarrow> n = m"
proof (induction n arbitrary: m rule: str_nat.induct)
  case (1 n)
  show ?case
  proof (cases "n < 10")
    case n: True
    show ?thesis
    proof (cases "m < 10")
      case True
      with n "1.prems" show ?thesis
        by (simp add: str_nat.simps [of n] str_nat.simps [of m] digit_char_inj)
    next
      case False
      with n "1.prems" show ?thesis
        by (simp add: str_nat.simps [of n] str_nat.simps [of m] str_nat_nonempty str_nat_nonempty [THEN not_sym])
    qed
  next
    case n: False
    show ?thesis
    proof (cases "m < 10")
      case True
      with n "1.prems" show ?thesis
        by (simp add: str_nat.simps [of n] str_nat.simps [of m] str_nat_nonempty str_nat_nonempty [THEN not_sym])
    next
      case False
      with n "1.prems" have a: "str_nat (n div 10) = str_nat (m div 10)"
        and b: "digit_char (n mod 10) = digit_char (m mod 10)"
        by (simp_all add: str_nat.simps [of n] str_nat.simps [of m])
      from "1.IH" [OF n a] have "n div 10 = m div 10" .
      moreover from b have "n mod 10 = m mod 10"
        by (intro digit_char_inj) simp_all
      ultimately show ?thesis
        by (metis div_mult_mod_eq)
    qed
  qed
qed

lemma str_int_no_sep: "CHR ''_'' \<notin> set (str_int i)"
  using str_nat_chars by (auto simp: str_int_def)

lemma str_int_inj: "str_int i = str_int j \<Longrightarrow> i = j"
proof -
  assume eq: "str_int i = str_int j"
  have hd_nat: "hd (str_nat n) \<noteq> CHR ''-''" for n
    using str_nat_chars [of "hd (str_nat n)" n] str_nat_nonempty [of n] by auto
  show ?thesis
  proof (cases "i < 0"; cases "j < 0")
    assume "i < 0" "j < 0"
    with eq have "nat (- i) = nat (- j)" by (auto simp: str_int_def dest: str_nat_inj)
    with \<open>i < 0\<close> \<open>j < 0\<close> show ?thesis by simp
  next
    assume "i < 0" "\<not> j < 0"
    with eq have "CHR ''-'' # str_nat (nat (- i)) = str_nat (nat j)" by (simp add: str_int_def)
    then have "hd (str_nat (nat j)) = CHR ''-''" by (metis list.sel(1))
    with hd_nat show ?thesis by blast
  next
    assume "\<not> i < 0" "j < 0"
    with eq have "CHR ''-'' # str_nat (nat (- j)) = str_nat (nat i)" by (simp add: str_int_def)
    then have "hd (str_nat (nat i)) = CHR ''-''" by (metis list.sel(1))
    with hd_nat show ?thesis by blast
  next
    assume "\<not> i < 0" "\<not> j < 0"
    with eq have "nat i = nat j" by (auto simp: str_int_def dest: str_nat_inj)
    with \<open>\<not> i < 0\<close> \<open>\<not> j < 0\<close> show ?thesis by simp
  qed
qed

lemma last_sep_split:
  "CHR ''_'' \<notin> set s \<Longrightarrow> CHR ''_'' \<notin> set t \<Longrightarrow>
   a @ CHR ''_'' # s = b @ CHR ''_'' # t \<Longrightarrow> a = b \<and> s = t"
  by (auto simp: append_eq_append_conv2 Cons_eq_append_conv append_eq_Cons_conv)

lemma key_string_identity: "key_string (identity_key doc) = doc_key doc"
  by (simp add: key_string_def identity_key_def doc_key_def)

lemma key_string_inj:
  assumes "key_string k = key_string k'"
  shows "k = k'"
proof -
  from assms have "fst k @ CHR ''_'' # str_int (snd k) = fst k' @ CHR ''_'' # str_int (snd k')"
    by (simp add: key_string_def)
  from last_sep_split [OF str_int_no_sep str_int_no_sep this]
  have "fst k = fst k'" and "str_int (snd k) = str_int (snd k')"
    by simp_all
  from this(1) str_int_inj [OF this(2)] show ?thesis
    by (simp add: prod_eq_iff)
qed

lemma doc_key_eq_iff:
  "doc_key a = doc_key b \<longleftrightarrow>
     doc_id (metadata a) = doc_id (metadata b) \<and> chunk_index (metadata a) = chunk_index (metadata b)"
proof
  assume "doc_key a = doc_key b"
  then have "key_string (identity_key a) = key_string (identity_key b)"
    by (simp add: key_string_identity)
  then have "identity_key a = identity_key b"
    by (rule key_string_inj)
  then show "doc_id (metadata a) = doc_id (metadata b) \<and>
      chunk_index (metadata a) = chunk_index (metadata b)"
    by (simp add: identity_key_def)
next
  assume "doc_id (metadata a) = doc_id (metadata b) \<and>
      chunk_index (metadata a) = chunk_index (metadata b)"
  then show "doc_key a = doc_key b"
    by (simp add: doc_key_def)
qed

section \<open>The merging loops against the description by identities\<close>

text \<open>
  With the set of seen key strings the image of a set of seen identities, the loop
  appends to \<^verbatim>\<open>combined_docs\<close> what \<open>keep_unseen\<close> keeps, and the set stays such
  an image.
\<close>

lemma doc_key_mem_iff: "doc_key doc \<in> key_string ` seen \<longleftrightarrow> identity_key doc \<in> seen"
  by (auto simp: key_string_identity [symmetric] dest: key_string_inj)

lemma fold_merge_step:
  "fold merge_step docs (acc, key_string ` seen) =
     (acc @ keep_unseen seen docs,
      key_string ` (seen \<union> identity_key ` set (keep_unseen seen docs)))"
proof (induction docs arbitrary: acc seen)
  case Nil
  show ?case by simp
next
  case (Cons doc docs)
  show ?case
  proof (cases "identity_key doc \<in> seen")
    case True
    then show ?thesis
      using Cons.IH [of acc seen] by (simp add: merge_step_def doc_key_mem_iff)
  next
    case False
    have "insert (doc_key doc) (key_string ` seen) = key_string ` insert (identity_key doc) seen"
      by (simp add: key_string_identity)
    with False show ?thesis
      using Cons.IH [of "acc @ [doc]" "insert (identity_key doc) seen"]
      by (simp add: merge_step_def doc_key_mem_iff)
  qed
qed

lemma keep_unseen_append:
  "keep_unseen seen (xs @ ys) =
     keep_unseen seen xs @ keep_unseen (seen \<union> identity_key ` set (keep_unseen seen xs)) ys"
  by (induction xs arbitrary: seen) (simp_all add: Un_commute insert_commute)

lemma combine_docs_keep_unseen: "combine_docs vs bs = keep_unseen {} (vs @ bs)"
  using fold_merge_step [of vs "[]" "{}"]
    fold_merge_step [of bs "keep_unseen {} vs" "identity_key ` set (keep_unseen {} vs)"]
  by (simp add: combine_docs_def keep_unseen_append)

lemma keep_unseen_fresh: "doc \<in> set (keep_unseen seen docs) \<Longrightarrow> identity_key doc \<notin> seen"
  by (induction docs arbitrary: seen) (auto split: if_splits)

lemma keep_unseen_subset: "set (keep_unseen seen docs) \<subseteq> set docs"
  by (induction docs arbitrary: seen) (auto split: if_splits)

lemma keep_unseen_distinct: "distinct (map identity_key (keep_unseen seen docs))"
  by (induction docs arbitrary: seen) (auto dest: keep_unseen_fresh)

lemma filter_keep_unseen:
  "filter (\<lambda>d. identity_key d = k) (keep_unseen seen docs) =
     (if k \<in> seen then []
      else (case List.find (\<lambda>d. identity_key d = k) docs of None \<Rightarrow> [] | Some v \<Rightarrow> [v]))"
proof (induction docs arbitrary: seen)
  case Nil
  show ?case by simp
next
  case (Cons doc docs)
  show ?case
    by (cases "identity_key doc = k") (auto simp: Cons.IH)
qed

lemma find_append_Some: "List.find P xs = Some v \<Longrightarrow> List.find P (xs @ ys) = Some v"
  by (induction xs) (auto split: if_splits)

section \<open>Rounding to a double\<close>

lemma rhe_floor: "\<lfloor>y\<rfloor> \<le> round_half_even y \<and> round_half_even y \<le> \<lfloor>y\<rfloor> + 1"
  by (simp add: round_half_even_def)

lemma rhe_of_int [simp]: "round_half_even (of_int n) = n"
  by (simp add: round_half_even_def)

lemma rhe_mono: "a \<le> b \<Longrightarrow> round_half_even a \<le> round_half_even b"
proof -
  assume ab: "a \<le> b"
  then have fl: "\<lfloor>a\<rfloor> \<le> \<lfloor>b\<rfloor>" by (rule floor_mono)
  show ?thesis
  proof (cases "\<lfloor>a\<rfloor> = \<lfloor>b\<rfloor>")
    case True
    with ab show ?thesis
      by (auto simp: round_half_even_def)
  next
    case False
    with fl have "\<lfloor>a\<rfloor> + 1 \<le> \<lfloor>b\<rfloor>" by linarith
    with rhe_floor [of a] rhe_floor [of b] show ?thesis by linarith
  qed
qed


lemma bitlen_le_nat: "bitlen a \<le> int n \<longleftrightarrow> a < 2 ^ n"
  using bitlen_le_iff_power [of a "int n"] by simp

lemma bitlen_ge_nat: "int (Suc n) \<le> bitlen a \<longleftrightarrow> 2 ^ n \<le> a"
proof -
  have "nat (int (Suc n)) - 1 = n" by simp
  with bitlen_ge_iff_power [of "int (Suc n)" a] show ?thesis
    by (simp del: of_nat_Suc)
qed

lemma ulp_exponent_upper: "\<bar>y\<bar> < 2 ^ (53 + ulp_exponent y)"
proof -
  have "bitlen \<lfloor>\<bar>y\<bar>\<rfloor> \<le> int (53 + ulp_exponent y)"
    by (simp add: ulp_exponent_def)
  then have "\<lfloor>\<bar>y\<bar>\<rfloor> < 2 ^ (53 + ulp_exponent y)"
    by (simp only: bitlen_le_nat)
  then have "\<bar>y\<bar> < of_int (2 ^ (53 + ulp_exponent y))"
    by (simp only: floor_less_iff)
  then show ?thesis by simp
qed

lemma ulp_exponent_lower:
  assumes "0 < ulp_exponent y"
  shows "2 ^ (52 + ulp_exponent y) \<le> \<bar>y\<bar>"
proof -
  from assms have "int (Suc (52 + ulp_exponent y)) \<le> bitlen \<lfloor>\<bar>y\<bar>\<rfloor>"
    by (simp add: ulp_exponent_def)
  then have "(2::int) ^ (52 + ulp_exponent y) \<le> \<lfloor>\<bar>y\<bar>\<rfloor>"
    by (simp only: bitlen_ge_nat)
  then have "of_int (2 ^ (52 + ulp_exponent y)) \<le> \<bar>y\<bar>"
    by (simp only: le_floor_iff)
  then show ?thesis by simp
qed

lemma ulp_exponent_mono: "\<bar>y\<bar> \<le> \<bar>z\<bar> \<Longrightarrow> ulp_exponent y \<le> ulp_exponent z"
proof -
  assume "\<bar>y\<bar> \<le> \<bar>z\<bar>"
  then have "\<lfloor>\<bar>y\<bar>\<rfloor> \<le> \<lfloor>\<bar>z\<bar>\<rfloor>" by (rule floor_mono)
  then have "bitlen \<lfloor>\<bar>y\<bar>\<rfloor> \<le> bitlen \<lfloor>\<bar>z\<bar>\<rfloor>"
    by (simp add: bitlen_def floorlog_mono)
  then show ?thesis by (simp add: ulp_exponent_def)
qed

lemma ulp_exponent_eq:
  assumes "2 ^ (52 + k) \<le> \<bar>y\<bar>" and "\<bar>y\<bar> < 2 ^ (53 + k)"
  shows "ulp_exponent y = k"
proof -
  from assms(1) have "of_int (2 ^ (52 + k)) \<le> \<bar>y\<bar>" by simp
  then have lo: "(2::int) ^ (52 + k) \<le> \<lfloor>\<bar>y\<bar>\<rfloor>" by (simp only: le_floor_iff)
  from assms(2) have "\<bar>y\<bar> < of_int (2 ^ (53 + k))" by simp
  then have hi: "\<lfloor>\<bar>y\<bar>\<rfloor> < 2 ^ (53 + k)" by (simp only: floor_less_iff)
  from hi have "bitlen \<lfloor>\<bar>y\<bar>\<rfloor> \<le> int (53 + k)"
    by (simp only: bitlen_le_nat)
  moreover from lo have "int (Suc (52 + k)) \<le> bitlen \<lfloor>\<bar>y\<bar>\<rfloor>"
    by (simp only: bitlen_ge_nat)
  ultimately show ?thesis by (simp add: ulp_exponent_def)
qed

lemma ulp_exponent_small:
  assumes "\<bar>y\<bar> < 2 ^ 53"
  shows "ulp_exponent y = 0"
proof -
  from assms have "\<bar>y\<bar> < of_int (2 ^ 53)" by simp
  then have "\<lfloor>\<bar>y\<bar>\<rfloor> < 2 ^ 53" by (simp only: floor_less_iff)
  then have "bitlen \<lfloor>\<bar>y\<bar>\<rfloor> \<le> int 53"
    by (simp only: bitlen_le_nat)
  then show ?thesis by (simp add: ulp_exponent_def)
qed

lemma round_scaled_upper: "round_scaled y \<le> 2 ^ (53 + ulp_exponent y)"
proof -
  let ?k = "ulp_exponent y"
  have "y \<le> \<bar>y\<bar>" by simp
  also have "\<bar>y\<bar> < 2 ^ (53 + ?k)" by (rule ulp_exponent_upper)
  finally have "y / 2 ^ ?k \<le> 2 ^ 53"
    by (simp add: power_add field_simps)
  then have "round_half_even (y / 2 ^ ?k) \<le> round_half_even (of_int (2 ^ 53))"
    by (intro rhe_mono) simp
  then have "round_half_even (y / 2 ^ ?k) \<le> 2 ^ 53"
    by (simp only: rhe_of_int)
  then have "real_of_int (round_half_even (y / 2 ^ ?k)) \<le> 2 ^ 53"
    by (metis of_int_le_iff of_int_numeral of_int_power)
  then show ?thesis
    by (simp add: round_scaled_def power_add)
qed

lemma round_scaled_lower: "- (2 ^ (53 + ulp_exponent y)) \<le> round_scaled y"
proof -
  let ?k = "ulp_exponent y"
  have "- y \<le> \<bar>y\<bar>" by simp
  also have "\<bar>y\<bar> < 2 ^ (53 + ?k)" by (rule ulp_exponent_upper)
  finally have "- (2 ^ 53) \<le> y / 2 ^ ?k"
    by (simp add: power_add field_simps)
  then have "round_half_even (of_int (- (2 ^ 53))) \<le> round_half_even (y / 2 ^ ?k)"
    by (intro rhe_mono) simp
  then have "- (2 ^ 53) \<le> round_half_even (y / 2 ^ ?k)"
    by (simp only: rhe_of_int)
  then have "- (2 ^ 53) \<le> real_of_int (round_half_even (y / 2 ^ ?k))"
    by (metis of_int_le_iff of_int_numeral of_int_power of_int_minus)
  then have "- (2 ^ 53) * 2 ^ ?k \<le> real_of_int (round_half_even (y / 2 ^ ?k)) * 2 ^ ?k"
    by (intro mult_right_mono) simp_all
  then show ?thesis
    by (simp add: round_scaled_def power_add)
qed


lemma of_int_rhe_mono: "a \<le> b \<Longrightarrow> real_of_int (round_half_even a) \<le> real_of_int (round_half_even b)"
  by (simp add: rhe_mono)

lemma rhe_zero [simp]: "round_half_even 0 = 0"
  by (simp add: round_half_even_def)

lemma round_scaled_nonneg:
  assumes "0 \<le> y"
  shows "0 \<le> round_scaled y"
proof -
  from assms have "(0::real) \<le> y / 2 ^ ulp_exponent y" by simp
  then have "round_half_even 0 \<le> round_half_even (y / 2 ^ ulp_exponent y)"
    by (rule rhe_mono)
  then have "0 \<le> real_of_int (round_half_even (y / 2 ^ ulp_exponent y))"
    by simp
  then show ?thesis
    unfolding round_scaled_def by (intro mult_nonneg_nonneg) simp_all
qed

lemma round_scaled_nonpos:
  assumes "y \<le> 0"
  shows "round_scaled y \<le> 0"
proof -
  from assms have "y / 2 ^ ulp_exponent y \<le> (0::real)"
    by (simp add: divide_nonpos_pos)
  then have "round_half_even (y / 2 ^ ulp_exponent y) \<le> round_half_even 0"
    by (rule rhe_mono)
  then have "real_of_int (round_half_even (y / 2 ^ ulp_exponent y)) \<le> 0"
    by simp
  then show ?thesis
    unfolding round_scaled_def by (intro mult_nonpos_nonneg) simp_all
qed

lemma round_scaled_large:
  assumes "0 < ulp_exponent y" and "0 \<le> y"
  shows "2 ^ (52 + ulp_exponent y) \<le> round_scaled y"
proof -
  let ?k = "ulp_exponent y"
  from ulp_exponent_lower [OF assms(1)] assms(2) have "2 ^ (52 + ?k) \<le> y" by simp
  then have "(2::real) ^ 52 \<le> y / 2 ^ ?k"
    by (simp add: power_add field_simps)
  then have "real_of_int (round_half_even (of_int (2 ^ 52))) \<le> real_of_int (round_half_even (y / 2 ^ ?k))"
    by (intro of_int_rhe_mono) simp
  then have "2 ^ 52 \<le> real_of_int (round_half_even (y / 2 ^ ?k))"
    by (simp only: rhe_of_int) simp
  then have "2 ^ 52 * 2 ^ ?k \<le> real_of_int (round_half_even (y / 2 ^ ?k)) * 2 ^ ?k"
    by (intro mult_right_mono) simp_all
  then show ?thesis
    by (simp add: round_scaled_def power_add)
qed

lemma round_scaled_large_neg:
  assumes "0 < ulp_exponent y" and "y \<le> 0"
  shows "round_scaled y \<le> - (2 ^ (52 + ulp_exponent y))"
proof -
  let ?k = "ulp_exponent y"
  from ulp_exponent_lower [OF assms(1)] assms(2) have "y \<le> - (2 ^ (52 + ?k))" by simp
  then have "y / 2 ^ ?k \<le> - ((2::real) ^ 52)"
    by (simp add: power_add field_simps)
  then have "real_of_int (round_half_even (y / 2 ^ ?k)) \<le> real_of_int (round_half_even (of_int (- (2 ^ 52))))"
    by (intro of_int_rhe_mono) simp
  then have "real_of_int (round_half_even (y / 2 ^ ?k)) \<le> - (2 ^ 52)"
    by (simp only: rhe_of_int) simp
  then have "real_of_int (round_half_even (y / 2 ^ ?k)) * 2 ^ ?k \<le> - (2 ^ 52) * 2 ^ ?k"
    by (intro mult_right_mono) simp_all
  then show ?thesis
    by (simp add: round_scaled_def power_add)
qed

lemma round_scaled_same_exponent:
  assumes "y \<le> z" and "ulp_exponent y = ulp_exponent z"
  shows "round_scaled y \<le> round_scaled z"
proof -
  from assms(1) have "y / 2 ^ ulp_exponent z \<le> z / 2 ^ ulp_exponent z"
    by (simp add: divide_right_mono)
  then have "real_of_int (round_half_even (y / 2 ^ ulp_exponent z))
      \<le> real_of_int (round_half_even (z / 2 ^ ulp_exponent z))"
    by (rule of_int_rhe_mono)
  then show ?thesis
    by (simp add: round_scaled_def assms(2))
qed

lemma round_scaled_mono:
  assumes "y \<le> z"
  shows "round_scaled y \<le> round_scaled z"
proof -
  consider "0 \<le> y" | "z \<le> 0" | "y < 0" and "0 < z"
    by linarith
  then show ?thesis
  proof cases
    case 1
    with assms have "\<bar>y\<bar> \<le> \<bar>z\<bar>" and z: "0 \<le> z" by simp_all
    then have le: "ulp_exponent y \<le> ulp_exponent z" by (simp add: ulp_exponent_mono)
    show ?thesis
    proof (cases "ulp_exponent y = ulp_exponent z")
      case True
      with assms show ?thesis by (rule round_scaled_same_exponent)
    next
      case False
      with le have lt: "ulp_exponent y < ulp_exponent z" by simp
      have "round_scaled y \<le> 2 ^ (53 + ulp_exponent y)"
        by (rule round_scaled_upper)
      also from lt have "(2::real) ^ (53 + ulp_exponent y) \<le> 2 ^ (52 + ulp_exponent z)"
        by (intro power_increasing) simp_all
      also from lt z have "2 ^ (52 + ulp_exponent z) \<le> round_scaled z"
        by (intro round_scaled_large) simp_all
      finally show ?thesis .
    qed
  next
    case 2
    with assms have "\<bar>z\<bar> \<le> \<bar>y\<bar>" and y: "y \<le> 0" by simp_all
    then have le: "ulp_exponent z \<le> ulp_exponent y" by (simp add: ulp_exponent_mono)
    show ?thesis
    proof (cases "ulp_exponent y = ulp_exponent z")
      case True
      with assms show ?thesis by (rule round_scaled_same_exponent)
    next
      case False
      with le have lt: "ulp_exponent z < ulp_exponent y" by simp
      from lt y have "round_scaled y \<le> - (2 ^ (52 + ulp_exponent y))"
        by (intro round_scaled_large_neg) simp_all
      also from lt have "(2::real) ^ (53 + ulp_exponent z) \<le> 2 ^ (52 + ulp_exponent y)"
        by (intro power_increasing) simp_all
      then have "- ((2::real) ^ (52 + ulp_exponent y)) \<le> - (2 ^ (53 + ulp_exponent z))"
        by simp
      also have "- (2 ^ (53 + ulp_exponent z)) \<le> round_scaled z"
        by (rule round_scaled_lower)
      finally show ?thesis .
    qed
  next
    case 3
    then have "round_scaled y \<le> 0" and "0 \<le> round_scaled z"
      by (simp_all add: round_scaled_nonpos round_scaled_nonneg)
    then show ?thesis by linarith
  qed
qed

lemma round_double_mono: "x \<le> y \<Longrightarrow> round_double x \<le> round_double y"
  by (simp add: round_double_def round_scaled_mono divide_right_mono)

lemma float_of_real_mono: "x \<le> y \<Longrightarrow> float_le (float_of_real x) (float_of_real y)"
  using round_double_mono [of x y] by (auto simp: float_of_real_def)

lemma round_double_normal:
  assumes "2 ^ (52 + k) \<le> \<bar>x * 2 ^ 1074\<bar>" and "\<bar>x * 2 ^ 1074\<bar> < 2 ^ (53 + k)"
  shows "round_double x = of_int (round_half_even (x * 2 ^ 1074 / 2 ^ k)) * 2 ^ k / 2 ^ 1074"
  by (simp only: round_double_def round_scaled_def ulp_exponent_eq [OF assms])

lemma round_double_exact:
  assumes "\<bar>m\<bar> < 2 ^ 53"
  shows "round_double (of_int m * 2 ^ j / 2 ^ 1074) = of_int m * 2 ^ j / 2 ^ 1074"
proof -
  let ?y = "real_of_int m * 2 ^ j"
  let ?k = "ulp_exponent ?y"
  have le: "?k \<le> j"
  proof (rule ccontr)
    assume "\<not> ?k \<le> j"
    then have "j < ?k" by simp
    then have pos: "0 < ?k" by simp
    from assms have "real_of_int \<bar>m\<bar> < 2 ^ 53"
      by (metis of_int_less_iff of_int_numeral of_int_power)
    then have "\<bar>?y\<bar> < 2 ^ 53 * 2 ^ j"
      by (simp add: abs_mult)
    also from \<open>j < ?k\<close> have "(2::real) ^ 53 * 2 ^ j \<le> 2 ^ (52 + ?k)"
      unfolding power_add [symmetric] by (intro power_increasing) simp_all
    also have "2 ^ (52 + ?k) \<le> \<bar>?y\<bar>"
      using pos by (rule ulp_exponent_lower)
    finally show False by simp
  qed
  define d where "d = j - ?k"
  with le have j: "j = d + ?k" by simp
  have "?y / 2 ^ ?k = real_of_int m * 2 ^ d"
    by (subst (1) j) (simp add: power_add)
  also have "\<dots> = of_int (m * 2 ^ d)"
    by simp
  finally have "round_half_even (?y / 2 ^ ?k) = m * 2 ^ d"
    by (simp only: rhe_of_int)
  then have "round_scaled ?y = of_int (m * 2 ^ d) * 2 ^ ?k"
    by (simp only: round_scaled_def)
  also have "\<dots> = real_of_int m * 2 ^ (d + ?k)"
    by (simp add: power_add)
  also have "\<dots> = ?y"
    by (simp only: j [symmetric])
  finally have "round_scaled ?y = ?y" .
  then show ?thesis
    by (simp add: round_double_def)
qed

section \<open>The maximum and the normalisation\<close>

text \<open>
  On finite scores Python's \<^verbatim>\<open>max\<close> is the greatest value, and behind the guard the
  loop replaces each score by the rounded quotient. A result that is a double already
  is returned as it is.
\<close>

lemma float_of_real_exact:
  assumes "\<bar>m\<bar> < 2 ^ 53" and "\<bar>real_of_int m * 2 ^ j / 2 ^ 1074\<bar> < 2 ^ 1024"
  shows "float_of_real (of_int m * 2 ^ j / 2 ^ 1074) = Finite (of_int m * 2 ^ j / 2 ^ 1074)"
proof -
  let ?x = "real_of_int m * 2 ^ j / 2 ^ 1074"
  from assms(2) have "?x < 2 ^ 1024 \<and> - ?x < 2 ^ 1024"
    by (simp only: abs_less_iff)
  then have "\<not> 2 ^ 1024 \<le> ?x" and "\<not> ?x \<le> - (2 ^ 1024)"
    by linarith+
  then show ?thesis
    by (simp only: float_of_real_def round_double_exact [OF assms(1)] if_False)
qed

lemma py_truediv_positive:
  assumes "float_lt (Finite 0) m"
  shows "\<exists>q. py_truediv a m = Some q"
  using assms by (cases m; cases a) simp_all

lemma float_le_zero_not_positive: "float_le m (Finite 0) \<Longrightarrow> \<not> float_lt (Finite 0) m"
  by (cases m) simp_all

lemma fold_max_finite:
  "fold (\<lambda>y m. if float_lt m y then y else m) (map Finite xs) (Finite x) = Finite (Max (set (x # xs)))"
proof (induction xs arbitrary: x)
  case Nil
  show ?case by simp
next
  case (Cons y ys)
  have "Max (insert x (insert y (set ys))) = Max (insert (max x y) (set ys))"
    by (cases "set ys = {}") (simp_all add: max.assoc)
  then show ?case
    by (auto simp: Cons.IH max_def insert_commute)
qed

lemma py_max_finite:
  assumes "map score rs = map Finite xs" and "rs \<noteq> []"
  shows "py_max (map score rs) = Some (Finite (Max (set xs)))"
proof -
  from assms obtain x xs' where "xs = x # xs'"
    by (cases xs) auto
  then show ?thesis
    by (simp add: assms(1) fold_max_finite)
qed

lemma normalize_scores_nonpositive:
  assumes "py_max (map score rs) = Some m" and "\<not> float_lt (Finite 0) m"
  shows "normalize_scores rs = rs"
  using assms by (simp add: normalize_scores_def)

lemma map_truediv_finite:
  assumes "map score rs = map Finite xs" and "0 < M"
  shows "map (\<lambda>r. case py_truediv (score r) (Finite M) of Some q \<Rightarrow> r\<lparr>score := q\<rparr> | None \<Rightarrow> r) rs =
           map (\<lambda>(r, x). r\<lparr>score := float_of_real (x / M)\<rparr>) (zip rs xs)"
  using assms(1)
proof (induction rs arbitrary: xs)
  case Nil
  then show ?case by simp
next
  case (Cons r rs)
  then obtain x xs' where "xs = x # xs'" and "score r = Finite x" and "map score rs = map Finite xs'"
    by (cases xs) auto
  with Cons.IH [of xs'] assms(2) show ?case
    by simp
qed

lemma normalize_scores_finite:
  assumes "map score rs = map Finite xs" and "rs \<noteq> []" and "0 < Max (set xs)"
  shows "normalize_scores rs =
           map (\<lambda>(r, x). r\<lparr>score := float_of_real (x / Max (set xs))\<rparr>) (zip rs xs)"
  using assms(2,3) map_truediv_finite [OF assms(1,3)]
  by (simp add: normalize_scores_def py_max_finite [OF assms(1,2)])

lemma normalize_scores_length: "length (normalize_scores rs) = length rs"
  by (simp add: normalize_scores_def split: option.splits)

lemma normalize_scores_identity: "map identity_key (normalize_scores rs) = map identity_key rs"
  by (auto simp: normalize_scores_def identity_key_def split: option.splits)

section \<open>Rounding at the values of the examples\<close>

lemma float_of_real_one: "float_of_real 1 = Finite 1"
  using float_of_real_exact [of 1 1074] by simp

lemma float_of_real_half: "float_of_real (1 / 2) = Finite (1 / 2)"
  using float_of_real_exact [of 1 1073] by simp

lemma float_of_real_minus_half: "float_of_real (- (1 / 2)) = Finite (- (1 / 2))"
  using float_of_real_exact [of "- 1" 1073] by simp

lemma float_of_real_three_quarters: "float_of_real (3 / 4) = Finite (3 / 4)"
  using float_of_real_exact [of 3 1072] by simp

lemma float_of_real_zero: "float_of_real 0 = Finite 0"
  using float_of_real_exact [of 0 0] by simp

lemma close_upper_is_double: "float_of_real (3 / 2 + 1 / 2 ^ 51) = Finite (3 / 2 + 1 / 2 ^ 51)"
  using float_of_real_exact [of "3 * 2 ^ 50 + 1" 1023] by simp

lemma close_lower_is_double: "float_of_real (3 / 2 + 1 / 2 ^ 52) = Finite (3 / 2 + 1 / 2 ^ 52)"
  using float_of_real_exact [of "3 * 2 ^ 51 + 1" 1022] by simp

lemma rhe_third: "round_half_even (2 ^ 52 + 4 / 3) = 2 ^ 52 + 1"
  by (simp add: round_half_even_def)

lemma rhe_two_thirds: "round_half_even (2 ^ 52 + 2 / 3) = 2 ^ 52 + 1"
  by (simp add: round_half_even_def)

lemma float_of_real_close_upper:
  "float_of_real ((3 / 2 + 1 / 2 ^ 51) / 3) = Finite (1 / 2 + 1 / 2 ^ 53)"
proof -
  let ?x = "(3 / 2 + 1 / 2 ^ 51) / 3 :: real"
  have s: "?x * 2 ^ 1074 / 2 ^ 1021 = 2 ^ 52 + 4 / 3"
    by simp
  have "2 ^ (52 + 1021) \<le> \<bar>?x * 2 ^ 1074\<bar>" and "\<bar>?x * 2 ^ 1074\<bar> < 2 ^ (53 + 1021)"
    by simp_all
  then have "round_double ?x = of_int (round_half_even (?x * 2 ^ 1074 / 2 ^ 1021)) * 2 ^ 1021 / 2 ^ 1074"
    by (rule round_double_normal)
  also have "\<dots> = 1 / 2 + 1 / 2 ^ 53"
    unfolding s rhe_third by simp
  finally show ?thesis
    by (simp add: float_of_real_def)
qed

lemma float_of_real_close_lower:
  "float_of_real ((3 / 2 + 1 / 2 ^ 52) / 3) = Finite (1 / 2 + 1 / 2 ^ 53)"
proof -
  let ?x = "(3 / 2 + 1 / 2 ^ 52) / 3 :: real"
  have s: "?x * 2 ^ 1074 / 2 ^ 1021 = 2 ^ 52 + 2 / 3"
    by simp
  have "2 ^ (52 + 1021) \<le> \<bar>?x * 2 ^ 1074\<bar>" and "\<bar>?x * 2 ^ 1074\<bar> < 2 ^ (53 + 1021)"
    by simp_all
  then have "round_double ?x = of_int (round_half_even (?x * 2 ^ 1074 / 2 ^ 1021)) * 2 ^ 1021 / 2 ^ 1074"
    by (rule round_double_normal)
  also have "\<dots> = 1 / 2 + 1 / 2 ^ 53"
    unfolding s rhe_two_thirds by simp
  finally show ?thesis
    by (simp add: float_of_real_def)
qed

section \<open>Selections of a list without duplicates\<close>

lemma distinct_count_le_1: "distinct xs \<Longrightarrow> count_list xs x \<le> 1"
  by (induction xs) auto

lemma count_le_1_distinct: "(\<forall>x. count_list xs x \<le> 1) \<Longrightarrow> distinct xs"
proof (induction xs)
  case Nil
  show ?case by simp
next
  case (Cons a xs)
  from Cons.prems [rule_format, of a] have "count_list xs a = 0"
    by simp
  then have "a \<notin> set xs"
    by (simp add: count_list_0_iff)
  moreover have "\<forall>x. count_list xs x \<le> 1"
  proof
    fix x
    from Cons.prems [rule_format, of x] show "count_list xs x \<le> 1"
      by (simp split: if_splits)
  qed
  then have "distinct xs"
    by (rule Cons.IH)
  ultimately show ?case by simp
qed

lemma selection_distinct:
  assumes "distinct (map identity_key cands)" and "selection_of out cands"
  shows "distinct (map identity_key out)"
proof (rule count_le_1_distinct, rule allI)
  fix k
  show "count_list (map identity_key out) k \<le> 1"
  proof (cases "k \<in> set (map identity_key out)")
    case True
    with assms(2) have "count_list (map identity_key out) k \<le> count_list (map identity_key cands) k"
      unfolding selection_of_def by blast
    also from assms(1) have "\<dots> \<le> 1"
      by (rule distinct_count_le_1)
    finally show ?thesis .
  next
    case False
    then show ?thesis by (simp add: count_list_0_iff)
  qed
qed

section \<open>The scenario of the specification\<close>

text \<open>
  Vector search returns \<open>(d1, 0, 0.9)\<close> and \<open>(d2, 0, 0.8)\<close>, keyword search returns
  \<open>(d1, 0, 12)\<close> and \<open>(d3, 0, 9)\<close>: the keyword instance of \<open>d1\<close> is dropped.
\<close>

lemma scenario_combined:
  "combine_docs scenario_vector scenario_bm25 =
     [hit ''d1'' 0 0.9 ''vector'', hit ''d2'' 0 0.8 ''vector'', hit ''d3'' 0 9 ''bm25'']"
  by (simp add: combine_docs_def scenario_vector_def scenario_bm25_def merge_step_def doc_key_def
      hit_def str_int_def str_nat.simps digit_char_def)

section \<open>Claims on the merge of the reranked hybrid search\<close>

text \<open>
  Claim C1. In reranked hybrid mode the candidate list passed to the reranker is built
  by going through the vector results in their order and then the keyword results in
  theirs, taking an item only if its \<open>(doc_id, chunk_index)\<close> has not been seen before
  (first conjunct: the loops of the code with their string keys compute \<open>keep_unseen\<close>
  on the two lists one after the other; third conjunct: whenever the reranker is
  called, it is called on this list). Hence for an identity \<open>k\<close> that occurs among the
  vector results, with \<open>v\<close> the first vector result that has it, the merged list
  holds exactly one item of identity \<open>k\<close>, and it is \<open>v\<close>, whatever the keyword
  results are: a keyword instance of \<open>k\<close> is dropped (second conjunct).
\<close>

theorem combine_docs_first_seen:
  "combine_docs vs bs = keep_unseen {} (vs @ bs) \<and>
   (List.find (\<lambda>d. identity_key d = k) vs = Some v \<longrightarrow>
      filter (\<lambda>d. identity_key d = k) (combine_docs vs bs) = [v]) \<and>
   (embed_query env (query request) = Inr qv \<longrightarrow>
    similarity_search env qv (MASTER_INDEX env) (expanded_k request) = Inr vs \<longrightarrow>
    bm25_search env (query request) (MASTER_INDEX env) (expanded_k request) = Inr bs \<longrightarrow>
    (\<forall>q cs n. RerankResults q cs n \<in> set (fst (hybrid_search_reranked env request)) \<longrightarrow>
       cs = keep_unseen {} (vs @ bs)))"
proof (intro conjI impI)
  show "combine_docs vs bs = keep_unseen {} (vs @ bs)"
    by (rule combine_docs_keep_unseen)
next
  assume "List.find (\<lambda>d. identity_key d = k) vs = Some v"
  then have "List.find (\<lambda>d. identity_key d = k) (vs @ bs) = Some v"
    by (rule find_append_Some)
  then show "filter (\<lambda>d. identity_key d = k) (combine_docs vs bs) = [v]"
    by (simp add: combine_docs_keep_unseen filter_keep_unseen)
next
  assume "embed_query env (query request) = Inr qv"
    and "similarity_search env qv (MASTER_INDEX env) (expanded_k request) = Inr vs"
    and "bm25_search env (query request) (MASTER_INDEX env) (expanded_k request) = Inr bs"
  then show "\<forall>q cs n. RerankResults q cs n \<in> set (fst (hybrid_search_reranked env request)) \<longrightarrow>
       cs = keep_unseen {} (vs @ bs)"
    by (auto simp: hybrid_search_reranked_def Let_def combine_docs_keep_unseen split: sum.splits)
qed

text \<open>The theorem at the scenario of the specification, for the identity \<open>(d1, 0)\<close>.\<close>

theorem combine_docs_first_seen_witness:
  "List.find (\<lambda>d. identity_key d = (''d1'', 0)) scenario_vector = Some (hit ''d1'' 0 0.9 ''vector'') \<and>
   filter (\<lambda>d. identity_key d = (''d1'', 0)) (combine_docs scenario_vector scenario_bm25) =
     [hit ''d1'' 0 0.9 ''vector''] \<and>
   combine_docs scenario_vector scenario_bm25 =
     [hit ''d1'' 0 0.9 ''vector'', hit ''d2'' 0 0.8 ''vector'', hit ''d3'' 0 9 ''bm25''] \<and>
   RerankResults ''alpha''
     [hit ''d1'' 0 0.9 ''vector'', hit ''d2'' 0 0.8 ''vector'', hit ''d3'' 0 9 ''bm25''] 3
     \<in> set (fst (hybrid_search_reranked (fixed_env scenario_vector scenario_bm25 []) alpha_request))"
proof -
  have f: "List.find (\<lambda>d. identity_key d = (''d1'', 0)) scenario_vector = Some (hit ''d1'' 0 0.9 ''vector'')"
    by (simp add: scenario_vector_def hit_def identity_key_def)
  have e: "embed_query (fixed_env scenario_vector scenario_bm25 []) (query alpha_request) = Inr [1, 0]"
    by (simp add: fixed_env_def)
  have s: "similarity_search (fixed_env scenario_vector scenario_bm25 []) [1, 0]
      (MASTER_INDEX (fixed_env scenario_vector scenario_bm25 [])) (expanded_k alpha_request) = Inr scenario_vector"
    by (simp add: fixed_env_def)
  have b: "bm25_search (fixed_env scenario_vector scenario_bm25 []) (query alpha_request)
      (MASTER_INDEX (fixed_env scenario_vector scenario_bm25 [])) (expanded_k alpha_request) = Inr scenario_bm25"
    by (simp add: fixed_env_def)
  have r: "RerankResults ''alpha''
     [hit ''d1'' 0 0.9 ''vector'', hit ''d2'' 0 0.8 ''vector'', hit ''d3'' 0 9 ''bm25''] 3
     \<in> set (fst (hybrid_search_reranked (fixed_env scenario_vector scenario_bm25 []) alpha_request))"
    by (simp add: hybrid_search_reranked_def Let_def scenario_combined fixed_env_def alpha_request_def)
  note main = combine_docs_first_seen [of scenario_vector scenario_bm25 "(''d1'', 0)"
      "hit ''d1'' 0 0.9 ''vector''" "fixed_env scenario_vector scenario_bm25 []" alpha_request "[1, 0]"]
  from main f
  have filt: "filter (\<lambda>d. identity_key d = (''d1'', 0)) (combine_docs scenario_vector scenario_bm25) =
      [hit ''d1'' 0 0.9 ''vector'']"
    by blast
  show ?thesis
    by (intro conjI) (rule f, rule filt, rule scenario_combined, rule r)
qed

section \<open>Claims on the normalisation of keyword scores\<close>

text \<open>
  Claim C2. For every keyword search whose result list is non-empty and has a positive
  score, every output score is to lie between 0 and 1 and the greatest one is to be 1;
  the docstring of the operation and the comment at the loop say as much: the scores
  are normalised into the range from 0 to 1. The code divides every score by the
  greatest one and does nothing else, so a negative raw score beside a positive one
  leaves the range: on the raw scores 2 and -1 the response holds 1 and -1/2.
\<close>

theorem keyword_search_negative_score:
  "snd (keyword_search (fixed_env [] [hit ''d1'' 0 2 ''bm25'', hit ''d2'' 0 (- 1) ''bm25''] [])
      alpha_request) =
     Inr \<lparr>results = [hit ''d1'' 0 1 ''bm25'', hit ''d2'' 0 (- (1 / 2)) ''bm25'']\<rparr> \<and>
   float_lt (Finite 0) (score (hit ''d1'' 0 2 ''bm25'')) \<and>
   float_lt (score (hit ''d2'' 0 (- (1 / 2)) ''bm25'')) (Finite 0)"
  by (simp add: keyword_search_def fixed_env_def normalize_scores_def hit_def to_response_def
      float_of_real_one float_of_real_minus_half)

text \<open>
  Claim C6. For every keyword search whose result list is non-empty and whose greatest
  raw score is at most 0, the response holds the hits exactly as the vector store
  returned them: nothing is divided and no score changes. The greatest raw score is
  what Python's \<^verbatim>\<open>max\<close> returns, compared by Python's \<^verbatim>\<open><=\<close> (first conjunct); on
  finite scores it is the greatest of their values (second conjunct).
\<close>

theorem keyword_search_nonpositive_unscaled:
  assumes "bm25_search env (query request) (MASTER_INDEX env) (top_k request) = Inr rs"
    and "rs \<noteq> []"
  shows "(\<forall>max_score. py_max (map score rs) = Some max_score \<longrightarrow> float_le max_score (Finite 0) \<longrightarrow>
            keyword_search env request =
              ([Bm25Search (query request) (MASTER_INDEX env) (top_k request)], Inr \<lparr>results = rs\<rparr>)) \<and>
         (\<forall>xs. map score rs = map Finite xs \<longrightarrow> Max (set xs) \<le> 0 \<longrightarrow>
            keyword_search env request =
              ([Bm25Search (query request) (MASTER_INDEX env) (top_k request)], Inr \<lparr>results = rs\<rparr>))"
proof (intro conjI allI impI)
  fix max_score
  assume "py_max (map score rs) = Some max_score" and "float_le max_score (Finite 0)"
  then have "normalize_scores rs = rs"
    by (intro normalize_scores_nonpositive float_le_zero_not_positive)
  with assms(1) show "keyword_search env request =
      ([Bm25Search (query request) (MASTER_INDEX env) (top_k request)], Inr \<lparr>results = rs\<rparr>)"
    by (simp add: keyword_search_def to_response_def)
next
  fix xs
  assume xs: "map score rs = map Finite xs" and "Max (set xs) \<le> 0"
  then have "\<not> float_lt (Finite 0) (Finite (Max (set xs)))"
    by simp
  with py_max_finite [OF xs assms(2)] have "normalize_scores rs = rs"
    by (rule normalize_scores_nonpositive)
  with assms(1) show "keyword_search env request =
      ([Bm25Search (query request) (MASTER_INDEX env) (top_k request)], Inr \<lparr>results = rs\<rparr>)"
    by (simp add: keyword_search_def to_response_def)
qed

text \<open>The theorem at the raw scores 0 and -3.\<close>

theorem keyword_search_nonpositive_unscaled_witness:
  "keyword_search (fixed_env [] [hit ''d1'' 0 0 ''bm25'', hit ''d2'' 0 (- 3) ''bm25''] []) alpha_request =
     ([Bm25Search ''alpha'' ''master'' 3],
      Inr \<lparr>results = [hit ''d1'' 0 0 ''bm25'', hit ''d2'' 0 (- 3) ''bm25'']\<rparr>)"
proof -
  let ?rs = "[hit ''d1'' 0 0 ''bm25'', hit ''d2'' 0 (- 3) ''bm25'']"
  let ?env = "fixed_env [] ?rs []"
  have a: "bm25_search ?env (query alpha_request) (MASTER_INDEX ?env) (top_k alpha_request) = Inr ?rs"
    by (simp add: fixed_env_def)
  have b: "?rs \<noteq> []"
    by simp
  have c: "map score ?rs = map Finite [0, - 3]"
    by (simp add: hit_def)
  have d: "Max (set [0, - 3 :: real]) \<le> 0"
    by simp
  have m: "MASTER_INDEX ?env = ''master''"
    by (simp add: fixed_env_def)
  from keyword_search_nonpositive_unscaled [OF a b] c d
  have "keyword_search ?env alpha_request =
      ([Bm25Search (query alpha_request) (MASTER_INDEX ?env) (top_k alpha_request)], Inr \<lparr>results = ?rs\<rparr>)"
    by blast
  then show ?thesis
    by (simp add: m alpha_request_def)
qed

text \<open>
  Claim C10, as amended. For every keyword search whose result list is non-empty, with
  finite raw scores the greatest of which is positive, the response has as many hits as
  the vector store returned, the output score at each position is the quotient of the
  raw score there by the greatest raw score, rounded to a double, and for any two
  positions: if the raw score at the one is at most the raw score at the other, then
  so is the output score. The converse is not part of it.
\<close>

theorem keyword_search_order_kept:
  assumes "bm25_search env (query request) (MASTER_INDEX env) (top_k request) = Inr rs"
    and "map score rs = map Finite xs"
    and "rs \<noteq> []"
    and "0 < Max (set xs)"
  shows "\<exists>out. snd (keyword_search env request) = Inr \<lparr>results = out\<rparr> \<and>
           length out = length rs \<and>
           (\<forall>i<length rs. score (out ! i) = float_of_real (xs ! i / Max (set xs))) \<and>
           (\<forall>i<length rs. \<forall>j<length rs.
              float_le (score (rs ! j)) (score (rs ! i)) \<longrightarrow>
              float_le (score (out ! j)) (score (out ! i)))"
proof -
  let ?M = "Max (set xs)"
  let ?out = "map (\<lambda>(r, x). r\<lparr>score := float_of_real (x / ?M)\<rparr>) (zip rs xs)"
  from assms(2) have len: "length xs = length rs"
    by (metis length_map)
  have run: "snd (keyword_search env request) = Inr \<lparr>results = ?out\<rparr>"
    using assms(1) normalize_scores_finite [OF assms(2,3,4)]
    by (simp add: keyword_search_def to_response_def)
  have lo: "length ?out = length rs"
    by (simp add: len)
  have sc: "score (?out ! i) = float_of_real (xs ! i / ?M)" if "i < length rs" for i
    using that by (simp add: len)
  have raw: "score (rs ! i) = Finite (xs ! i)" if "i < length rs" for i
  proof -
    from that have "score (rs ! i) = map score rs ! i" by simp
    also from that len have "\<dots> = Finite (xs ! i)" by (simp add: assms(2))
    finally show ?thesis .
  qed
  have ord: "float_le (score (?out ! j)) (score (?out ! i))"
    if "i < length rs" and "j < length rs" and "float_le (score (rs ! j)) (score (rs ! i))" for i j
  proof -
    from that have "xs ! j \<le> xs ! i"
      by (simp add: raw)
    with assms(4) have "xs ! j / ?M \<le> xs ! i / ?M"
      by (simp add: divide_right_mono)
    then have "float_le (float_of_real (xs ! j / ?M)) (float_of_real (xs ! i / ?M))"
      by (rule float_of_real_mono)
    with that(1,2) show ?thesis
      by (simp only: sc)
  qed
  from run lo sc ord show ?thesis
    by (intro exI [of _ ?out] conjI allI impI) blast+
qed

text \<open>The theorem at the raw scores 12, 6 and 0, for the last and the first position.\<close>

theorem keyword_search_order_kept_witness:
  "snd (keyword_search
      (fixed_env [] [hit ''d1'' 0 12 ''bm25'', hit ''d2'' 0 6 ''bm25'', hit ''d3'' 0 0 ''bm25''] [])
      alpha_request) =
     Inr \<lparr>results = [hit ''d1'' 0 1 ''bm25'', hit ''d2'' 0 (1 / 2) ''bm25'', hit ''d3'' 0 0 ''bm25'']\<rparr> \<and>
   float_le (score ([hit ''d1'' 0 12 ''bm25'', hit ''d2'' 0 6 ''bm25'', hit ''d3'' 0 0 ''bm25''] ! 2))
     (score ([hit ''d1'' 0 12 ''bm25'', hit ''d2'' 0 6 ''bm25'', hit ''d3'' 0 0 ''bm25''] ! 0)) \<and>
   float_le (score ([hit ''d1'' 0 1 ''bm25'', hit ''d2'' 0 (1 / 2) ''bm25'', hit ''d3'' 0 0 ''bm25''] ! 2))
     (score ([hit ''d1'' 0 1 ''bm25'', hit ''d2'' 0 (1 / 2) ''bm25'', hit ''d3'' 0 0 ''bm25''] ! 0))"
proof -
  let ?rs = "[hit ''d1'' 0 12 ''bm25'', hit ''d2'' 0 6 ''bm25'', hit ''d3'' 0 0 ''bm25'']"
  let ?res = "[hit ''d1'' 0 1 ''bm25'', hit ''d2'' 0 (1 / 2) ''bm25'', hit ''d3'' 0 0 ''bm25'']"
  let ?env = "fixed_env [] ?rs []"
  have a: "bm25_search ?env (query alpha_request) (MASTER_INDEX ?env) (top_k alpha_request) = Inr ?rs"
    by (simp add: fixed_env_def)
  have b: "map score ?rs = map Finite [12, 6, 0]"
    by (simp add: hit_def)
  have c: "?rs \<noteq> []"
    by simp
  have d: "0 < Max (set [12, 6, 0 :: real])"
    by simp
  have run: "snd (keyword_search ?env alpha_request) = Inr \<lparr>results = ?res\<rparr>"
    by (simp add: keyword_search_def fixed_env_def normalize_scores_def hit_def to_response_def
        float_of_real_one float_of_real_half float_of_real_zero)
  have raw: "float_le (score (?rs ! 2)) (score (?rs ! 0))"
    by (simp add: hit_def)
  from keyword_search_order_kept [OF a b c d] obtain out
    where o: "snd (keyword_search ?env alpha_request) = Inr \<lparr>results = out\<rparr>"
      and ord: "\<forall>i<length ?rs. \<forall>j<length ?rs.
              float_le (score (?rs ! j)) (score (?rs ! i)) \<longrightarrow>
              float_le (score (out ! j)) (score (out ! i))"
    by blast
  from o run have out: "out = ?res"
    by simp
  have "(0::nat) < length ?rs" and "(2::nat) < length ?rs"
    by simp_all
  with ord raw have "float_le (score (out ! 2)) (score (out ! 0))"
    by blast
  with run raw show ?thesis
    unfolding out by (intro conjI)
qed

text \<open>
  Claim C10 as stated has the two orders agree exactly. The division rounds: the
  doubles \<open>3 / 2 + 1 / 2 ^ 51\<close> and \<open>3 / 2 + 1 / 2 ^ 52\<close> (printed by Python as
  \<^verbatim>\<open>1.5000000000000004\<close> and \<^verbatim>\<open>1.5000000000000002\<close>) divided by 3 both give the
  double \<open>1 / 2 + 1 / 2 ^ 53\<close>. The output of the first hit is at most the output of
  the second, and its raw score is not. The last two conjuncts say that the two raw
  scores are doubles: rounding returns them as they are.
\<close>

theorem keyword_search_rounding_counterexample:
  "snd (keyword_search
      (fixed_env []
         [hit ''d1'' 0 (3 / 2 + 1 / 2 ^ 51) ''bm25'', hit ''d2'' 0 (3 / 2 + 1 / 2 ^ 52) ''bm25'',
          hit ''d3'' 0 3 ''bm25''] [])
      alpha_request) =
     Inr \<lparr>results =
       [hit ''d1'' 0 (1 / 2 + 1 / 2 ^ 53) ''bm25'', hit ''d2'' 0 (1 / 2 + 1 / 2 ^ 53) ''bm25'',
        hit ''d3'' 0 1 ''bm25'']\<rparr> \<and>
   float_le (score (hit ''d1'' 0 (1 / 2 + 1 / 2 ^ 53) ''bm25''))
     (score (hit ''d2'' 0 (1 / 2 + 1 / 2 ^ 53) ''bm25'')) \<and>
   \<not> float_le (score (hit ''d1'' 0 (3 / 2 + 1 / 2 ^ 51) ''bm25''))
     (score (hit ''d2'' 0 (3 / 2 + 1 / 2 ^ 52) ''bm25'')) \<and>
   float_of_real (3 / 2 + 1 / 2 ^ 51) = Finite (3 / 2 + 1 / 2 ^ 51) \<and>
   float_of_real (3 / 2 + 1 / 2 ^ 52) = Finite (3 / 2 + 1 / 2 ^ 52)"
proof -
  let ?rs = "[hit ''d1'' 0 (3 / 2 + 1 / 2 ^ 51) ''bm25'', hit ''d2'' 0 (3 / 2 + 1 / 2 ^ 52) ''bm25'',
      hit ''d3'' 0 3 ''bm25'']"
  have b: "map score ?rs = map Finite [3 / 2 + 1 / 2 ^ 51, 3 / 2 + 1 / 2 ^ 52, 3]"
    by (simp add: hit_def)
  have M: "Max (set [3 / 2 + 1 / 2 ^ 51, 3 / 2 + 1 / 2 ^ 52, 3 :: real]) = 3"
    by simp
  have "normalize_scores ?rs =
      [hit ''d1'' 0 (1 / 2 + 1 / 2 ^ 53) ''bm25'', hit ''d2'' 0 (1 / 2 + 1 / 2 ^ 53) ''bm25'',
       hit ''d3'' 0 1 ''bm25'']"
    using normalize_scores_finite [OF b] float_of_real_close_upper float_of_real_close_lower
      float_of_real_one
    by (simp add: M hit_def)
  then have "snd (keyword_search (fixed_env [] ?rs []) alpha_request) =
     Inr \<lparr>results =
       [hit ''d1'' 0 (1 / 2 + 1 / 2 ^ 53) ''bm25'', hit ''d2'' 0 (1 / 2 + 1 / 2 ^ 53) ''bm25'',
        hit ''d3'' 0 1 ''bm25'']\<rparr>"
    by (simp add: keyword_search_def fixed_env_def to_response_def)
  moreover have "float_le (score (hit ''d1'' 0 (1 / 2 + 1 / 2 ^ 53) ''bm25''))
     (score (hit ''d2'' 0 (1 / 2 + 1 / 2 ^ 53) ''bm25''))"
    by (simp add: hit_def)
  moreover have "\<not> float_le (score (hit ''d1'' 0 (3 / 2 + 1 / 2 ^ 51) ''bm25''))
     (score (hit ''d2'' 0 (3 / 2 + 1 / 2 ^ 52) ''bm25''))"
    by (simp add: hit_def)
  ultimately show ?thesis
    using close_upper_is_double close_lower_is_double by (intro conjI)
qed

section \<open>Claims on the calls of the reranked hybrid search\<close>

text \<open>
  Claim C3. In reranked hybrid mode, when the vector search and the keyword search
  both return the empty list, the operation returns a response with no results; the
  calls it has issued are the embedding and the two searches, so the reranker is not
  called, and the outcome is a response, not an exception.
\<close>

theorem reranked_empty_candidates:
  assumes "embed_query env (query request) = Inr qv"
    and "similarity_search env qv (MASTER_INDEX env) (expanded_k request) = Inr []"
    and "bm25_search env (query request) (MASTER_INDEX env) (expanded_k request) = Inr []"
  shows "hybrid_search_reranked env request =
           ([EmbedQuery (query request),
             SimilaritySearch qv (MASTER_INDEX env) (expanded_k request),
             Bm25Search (query request) (MASTER_INDEX env) (expanded_k request)],
            Inr \<lparr>results = []\<rparr>)"
  using assms by (simp add: hybrid_search_reranked_def combine_docs_def to_response_def)

text \<open>The theorem against collaborators that find nothing.\<close>

theorem reranked_empty_candidates_witness:
  "hybrid_search_reranked (fixed_env [] [] []) alpha_request =
     ([EmbedQuery ''alpha'', SimilaritySearch [1, 0] ''master'' 30, Bm25Search ''alpha'' ''master'' 30],
      Inr \<lparr>results = []\<rparr>)"
proof -
  have e: "embed_query (fixed_env [] [] []) (query alpha_request) = Inr [1, 0]"
    by (simp add: fixed_env_def)
  have s: "similarity_search (fixed_env [] [] []) [1, 0] (MASTER_INDEX (fixed_env [] [] []))
      (expanded_k alpha_request) = Inr []"
    by (simp add: fixed_env_def)
  have b: "bm25_search (fixed_env [] [] []) (query alpha_request) (MASTER_INDEX (fixed_env [] [] []))
      (expanded_k alpha_request) = Inr []"
    by (simp add: fixed_env_def)
  from reranked_empty_candidates [OF e s b] show ?thesis
    by (simp add: fixed_env_def alpha_request_def expanded_k_def)
qed

text \<open>
  Claim C4. Reranked hybrid mode asks both searches for \<open>max (top_k * 3) 30\<close>
  candidates, which is 30 for a \<^verbatim>\<open>top_k\<close> of 5 and 60 for a \<^verbatim>\<open>top_k\<close> of 20: no
  search call of a run carries another count, and when the embedding and the vector
  search return, the first three calls are the embedding, the vector search and the
  keyword search with this count, and any later call is a call of the reranker. This
  holds for every \<^verbatim>\<open>top_k\<close>, the positive ones among them.
\<close>

theorem reranked_requests_expanded_k:
  "expanded_k request = max (top_k request * 3) 30 \<and>
   expanded_k \<lparr>query = q, top_k = 5\<rparr> = 30 \<and>
   expanded_k \<lparr>query = q, top_k = 20\<rparr> = 60 \<and>
   (\<forall>v i n. SimilaritySearch v i n \<in> set (fst (hybrid_search_reranked env request)) \<longrightarrow>
      n = max (top_k request * 3) 30) \<and>
   (\<forall>s i n. Bm25Search s i n \<in> set (fst (hybrid_search_reranked env request)) \<longrightarrow>
      n = max (top_k request * 3) 30) \<and>
   (embed_query env (query request) = Inr qv \<longrightarrow>
    similarity_search env qv (MASTER_INDEX env) (max (top_k request * 3) 30) = Inr vs \<longrightarrow>
      take 3 (fst (hybrid_search_reranked env request)) =
        [EmbedQuery (query request),
         SimilaritySearch qv (MASTER_INDEX env) (max (top_k request * 3) 30),
         Bm25Search (query request) (MASTER_INDEX env) (max (top_k request * 3) 30)] \<and>
      (\<forall>c\<in>set (drop 3 (fst (hybrid_search_reranked env request))).
         \<exists>q cs n. c = RerankResults q cs n))"
proof (intro conjI allI impI)
  show "expanded_k request = max (top_k request * 3) 30"
    by (simp add: expanded_k_def)
  show "expanded_k \<lparr>query = q, top_k = 5\<rparr> = 30"
    by (simp add: expanded_k_def)
  show "expanded_k \<lparr>query = q, top_k = 20\<rparr> = 60"
    by (simp add: expanded_k_def)
next
  fix v i n
  assume "SimilaritySearch v i n \<in> set (fst (hybrid_search_reranked env request))"
  then show "n = max (top_k request * 3) 30"
    by (auto simp: hybrid_search_reranked_def Let_def expanded_k_def split: sum.splits if_splits)
next
  fix s i n
  assume "Bm25Search s i n \<in> set (fst (hybrid_search_reranked env request))"
  then show "n = max (top_k request * 3) 30"
    by (auto simp: hybrid_search_reranked_def Let_def expanded_k_def split: sum.splits if_splits)
next
  assume "embed_query env (query request) = Inr qv"
    and "similarity_search env qv (MASTER_INDEX env) (max (top_k request * 3) 30) = Inr vs"
  then show "take 3 (fst (hybrid_search_reranked env request)) =
        [EmbedQuery (query request),
         SimilaritySearch qv (MASTER_INDEX env) (max (top_k request * 3) 30),
         Bm25Search (query request) (MASTER_INDEX env) (max (top_k request * 3) 30)]"
    by (simp add: hybrid_search_reranked_def Let_def expanded_k_def split: sum.splits)
next
  assume "embed_query env (query request) = Inr qv"
    and "similarity_search env qv (MASTER_INDEX env) (max (top_k request * 3) 30) = Inr vs"
  then show "\<forall>c\<in>set (drop 3 (fst (hybrid_search_reranked env request))).
         \<exists>q cs n. c = RerankResults q cs n"
    by (simp add: hybrid_search_reranked_def Let_def expanded_k_def split: sum.splits)
qed

text \<open>The theorem at \<^verbatim>\<open>top_k = 5\<close> on the scenario of the specification.\<close>

theorem reranked_requests_expanded_k_witness:
  "SimilaritySearch [1, 0] ''master'' 30
     \<in> set (fst (hybrid_search_reranked (fixed_env scenario_vector scenario_bm25 [])
               \<lparr>query = ''alpha'', top_k = 5\<rparr>)) \<and>
   Bm25Search ''alpha'' ''master'' 30
     \<in> set (fst (hybrid_search_reranked (fixed_env scenario_vector scenario_bm25 [])
               \<lparr>query = ''alpha'', top_k = 5\<rparr>)) \<and>
   take 3 (fst (hybrid_search_reranked (fixed_env scenario_vector scenario_bm25 [])
               \<lparr>query = ''alpha'', top_k = 5\<rparr>)) =
     [EmbedQuery ''alpha'', SimilaritySearch [1, 0] ''master'' 30, Bm25Search ''alpha'' ''master'' 30] \<and>
   drop 3 (fst (hybrid_search_reranked (fixed_env scenario_vector scenario_bm25 [])
               \<lparr>query = ''alpha'', top_k = 5\<rparr>)) =
     [RerankResults ''alpha''
        [hit ''d1'' 0 0.9 ''vector'', hit ''d2'' 0 0.8 ''vector'', hit ''d3'' 0 9 ''bm25''] 5]"
proof -
  let ?env = "fixed_env scenario_vector scenario_bm25 []"
  let ?req = "\<lparr>query = ''alpha'', top_k = 5\<rparr>"
  have e: "embed_query ?env (query ?req) = Inr [1, 0]"
    by (simp add: fixed_env_def)
  have s: "similarity_search ?env [1, 0] (MASTER_INDEX ?env) (max (top_k ?req * 3) 30) = Inr scenario_vector"
    by (simp add: fixed_env_def)
  have run: "fst (hybrid_search_reranked ?env ?req) =
     [EmbedQuery ''alpha'', SimilaritySearch [1, 0] ''master'' 30, Bm25Search ''alpha'' ''master'' 30,
      RerankResults ''alpha''
        [hit ''d1'' 0 0.9 ''vector'', hit ''d2'' 0 0.8 ''vector'', hit ''d3'' 0 9 ''bm25''] 5]"
    by (simp add: hybrid_search_reranked_def Let_def scenario_combined fixed_env_def expanded_k_def)
  note main = reranked_requests_expanded_k [of ?req "''alpha''" ?env "[1, 0]" scenario_vector]
  from main e s have "take 3 (fst (hybrid_search_reranked ?env ?req)) =
     [EmbedQuery (query ?req), SimilaritySearch [1, 0] (MASTER_INDEX ?env) (max (top_k ?req * 3) 30),
      Bm25Search (query ?req) (MASTER_INDEX ?env) (max (top_k ?req * 3) 30)]"
    by blast
  then have t: "take 3 (fst (hybrid_search_reranked ?env ?req)) =
     [EmbedQuery ''alpha'', SimilaritySearch [1, 0] ''master'' 30, Bm25Search ''alpha'' ''master'' 30]"
    by (simp add: fixed_env_def)
  show ?thesis
    using t by (simp add: run)
qed

text \<open>
  Claim C7. In reranked hybrid mode with a non-empty merged candidate list, the calls
  are the embedding, the two searches and one call of the reranker, with the query of
  the request, the whole merged list and the \<^verbatim>\<open>top_k\<close> of the request (not the
  expanded count); the response holds the list the reranker returns, as it is, and an
  exception of the reranker leaves the operation.
\<close>

theorem reranked_invokes_reranker_once:
  assumes "embed_query env (query request) = Inr qv"
    and "similarity_search env qv (MASTER_INDEX env) (expanded_k request) = Inr vs"
    and "bm25_search env (query request) (MASTER_INDEX env) (expanded_k request) = Inr bs"
    and "combine_docs vs bs \<noteq> []"
  shows "hybrid_search_reranked env request =
           ([EmbedQuery (query request),
             SimilaritySearch qv (MASTER_INDEX env) (expanded_k request),
             Bm25Search (query request) (MASTER_INDEX env) (expanded_k request),
             RerankResults (query request) (combine_docs vs bs) (top_k request)],
            (case rerank_results env (query request) (combine_docs vs bs) (top_k request) of
               Inl e \<Rightarrow> Inl e
             | Inr reranked_docs \<Rightarrow> Inr \<lparr>results = reranked_docs\<rparr>))"
  using assms by (simp add: hybrid_search_reranked_def Let_def to_response_def split: sum.splits)

text \<open>The theorem on the scenario of the specification with \<^verbatim>\<open>top_k = 2\<close>.\<close>

theorem reranked_invokes_reranker_once_witness:
  "hybrid_search_reranked (fixed_env scenario_vector scenario_bm25 []) \<lparr>query = ''alpha'', top_k = 2\<rparr> =
     ([EmbedQuery ''alpha'', SimilaritySearch [1, 0] ''master'' 30, Bm25Search ''alpha'' ''master'' 30,
       RerankResults ''alpha''
         [hit ''d1'' 0 0.9 ''vector'', hit ''d2'' 0 0.8 ''vector'', hit ''d3'' 0 9 ''bm25''] 2],
      Inr \<lparr>results = [hit ''d1'' 0 0.9 ''vector'', hit ''d2'' 0 0.8 ''vector'']\<rparr>)"
proof -
  let ?env = "fixed_env scenario_vector scenario_bm25 []"
  let ?req = "\<lparr>query = ''alpha'', top_k = 2\<rparr>"
  have e: "embed_query ?env (query ?req) = Inr [1, 0]"
    by (simp add: fixed_env_def)
  have s: "similarity_search ?env [1, 0] (MASTER_INDEX ?env) (expanded_k ?req) = Inr scenario_vector"
    by (simp add: fixed_env_def)
  have b: "bm25_search ?env (query ?req) (MASTER_INDEX ?env) (expanded_k ?req) = Inr scenario_bm25"
    by (simp add: fixed_env_def)
  have c: "combine_docs scenario_vector scenario_bm25 \<noteq> []"
    by (simp add: scenario_combined)
  have r: "rerank_results ?env q cs 2 = Inr (take 2 cs)" for q cs
    by (simp add: fixed_env_def)
  have m: "MASTER_INDEX ?env = ''master''"
    by (simp add: fixed_env_def)
  from reranked_invokes_reranker_once [OF e s b c] show ?thesis
    by (simp add: scenario_combined r m expanded_k_def)
qed

section \<open>Claims on the engine-native hybrid search\<close>

text \<open>
  Claim C8. In engine-native hybrid mode, when the pipeline call of the vector store
  raises an exception, the operation ends with that same exception: there is no
  response, and the calls issued are the embedding and this one pipeline call, so
  nothing is retried and no other search stands in.
\<close>

theorem native_hybrid_propagates:
  assumes "embed_query env (query request) = Inr qv"
    and "hybrid_search_with_pipeline env (query request) qv (MASTER_INDEX env)
           ''hybrid-search-pipeline'' (top_k request) = Inl e"
  shows "hybrid_search_native env request =
           ([EmbedQuery (query request),
             HybridSearchWithPipeline (query request) qv (MASTER_INDEX env)
               ''hybrid-search-pipeline'' (top_k request)],
            Inl e)"
  using assms by (simp add: hybrid_search_native_def)

text \<open>The theorem against a vector store whose pipeline call fails.\<close>

theorem native_hybrid_propagates_witness:
  "hybrid_search_native failing_pipeline_env alpha_request =
     ([EmbedQuery ''alpha'',
       HybridSearchWithPipeline ''alpha'' [1, 0] ''master'' ''hybrid-search-pipeline'' 3],
      Inl ''connection refused'')"
proof -
  have e: "embed_query failing_pipeline_env (query alpha_request) = Inr [1, 0]"
    by (simp add: failing_pipeline_env_def fixed_env_def)
  have p: "hybrid_search_with_pipeline failing_pipeline_env (query alpha_request) [1, 0]
      (MASTER_INDEX failing_pipeline_env) ''hybrid-search-pipeline'' (top_k alpha_request) =
      Inl ''connection refused''"
    by (simp add: failing_pipeline_env_def)
  have m: "MASTER_INDEX failing_pipeline_env = ''master''"
    by (simp add: failing_pipeline_env_def fixed_env_def)
  from native_hybrid_propagates [OF e p] show ?thesis
    by (simp add: m alpha_request_def)
qed

section \<open>Claims on the identities in a response\<close>

text \<open>
  Claim C5, as amended. The service removes duplicates in one place only, the merge of
  the reranked hybrid search. In that mode the candidate list passed to the reranker
  is the merge of the two lists the searches returned and has no two items of the
  same \<open>(doc_id, chunk_index)\<close>, whatever the searches return; the response is empty
  when that list is empty and otherwise the list the reranker returns on it, the one
  call of the reranker in the trace; and the response has no two items of the same
  identity whenever the reranker returns a selection of its candidates, as its
  contract in the specification has it. In vector mode and in engine-native hybrid
  mode the response is the list of the vector store as it is, and in keyword mode it
  has the identities of the vector store's list in the same order; so a response of
  these modes is free of duplicates exactly when the collaborator's list is.
\<close>

theorem response_identities:
  "distinct (map identity_key (combine_docs vs bs)) \<and>
   (snd (vector_search env request) = Inr rv \<longrightarrow>
      (\<exists>qv. embed_query env (query request) = Inr qv \<and>
            similarity_search env qv (MASTER_INDEX env) (top_k request) = Inr (results rv))) \<and>
   (snd (keyword_search env request) = Inr rk \<longrightarrow>
      (\<exists>rs. bm25_search env (query request) (MASTER_INDEX env) (top_k request) = Inr rs \<and>
            map identity_key (results rk) = map identity_key rs)) \<and>
   (snd (hybrid_search_native env request) = Inr rn \<longrightarrow>
      (\<exists>qv. embed_query env (query request) = Inr qv \<and>
            hybrid_search_with_pipeline env (query request) qv (MASTER_INDEX env)
              ''hybrid-search-pipeline'' (top_k request) = Inr (results rn))) \<and>
   (snd (hybrid_search_reranked env request) = Inr rr \<longrightarrow>
      (\<exists>qv vs' bs'.
          embed_query env (query request) = Inr qv \<and>
          similarity_search env qv (MASTER_INDEX env) (expanded_k request) = Inr vs' \<and>
          bm25_search env (query request) (MASTER_INDEX env) (expanded_k request) = Inr bs' \<and>
          distinct (map identity_key (combine_docs vs' bs')) \<and>
          (if combine_docs vs' bs' = [] then
             fst (hybrid_search_reranked env request) =
               [EmbedQuery (query request),
                SimilaritySearch qv (MASTER_INDEX env) (expanded_k request),
                Bm25Search (query request) (MASTER_INDEX env) (expanded_k request)] \<and>
             results rr = []
           else
             fst (hybrid_search_reranked env request) =
               [EmbedQuery (query request),
                SimilaritySearch qv (MASTER_INDEX env) (expanded_k request),
                Bm25Search (query request) (MASTER_INDEX env) (expanded_k request),
                RerankResults (query request) (combine_docs vs' bs') (top_k request)] \<and>
             rerank_results env (query request) (combine_docs vs' bs') (top_k request) =
               Inr (results rr)) \<and>
          (selection_of (results rr) (combine_docs vs' bs') \<longrightarrow>
             distinct (map identity_key (results rr)))))"
proof (intro conjI impI)
  show "distinct (map identity_key (combine_docs vs bs))"
    by (simp add: combine_docs_keep_unseen keep_unseen_distinct)
next
  assume "snd (vector_search env request) = Inr rv"
  then show "\<exists>qv. embed_query env (query request) = Inr qv \<and>
      similarity_search env qv (MASTER_INDEX env) (top_k request) = Inr (results rv)"
    by (auto simp: vector_search_def to_response_def split: sum.splits)
next
  assume "snd (keyword_search env request) = Inr rk"
  then show "\<exists>rs. bm25_search env (query request) (MASTER_INDEX env) (top_k request) = Inr rs \<and>
      map identity_key (results rk) = map identity_key rs"
    by (auto simp: keyword_search_def to_response_def normalize_scores_identity split: sum.splits)
next
  assume "snd (hybrid_search_native env request) = Inr rn"
  then show "\<exists>qv. embed_query env (query request) = Inr qv \<and>
      hybrid_search_with_pipeline env (query request) qv (MASTER_INDEX env)
        ''hybrid-search-pipeline'' (top_k request) = Inr (results rn)"
    by (auto simp: hybrid_search_native_def to_response_def split: sum.splits)
next
  assume run: "snd (hybrid_search_reranked env request) = Inr rr"
  then obtain qv where e: "embed_query env (query request) = Inr qv"
    by (cases "embed_query env (query request)") (auto simp: hybrid_search_reranked_def)
  with run obtain vs' where
    s: "similarity_search env qv (MASTER_INDEX env) (expanded_k request) = Inr vs'"
    by (cases "similarity_search env qv (MASTER_INDEX env) (expanded_k request)")
      (auto simp: hybrid_search_reranked_def)
  with run e obtain bs' where
    b: "bm25_search env (query request) (MASTER_INDEX env) (expanded_k request) = Inr bs'"
    by (cases "bm25_search env (query request) (MASTER_INDEX env) (expanded_k request)")
      (auto simp: hybrid_search_reranked_def)
  let ?cs = "combine_docs vs' bs'"
  have d: "distinct (map identity_key ?cs)"
    by (simp add: combine_docs_keep_unseen keep_unseen_distinct)
  have tr: "if ?cs = [] then
             fst (hybrid_search_reranked env request) =
               [EmbedQuery (query request),
                SimilaritySearch qv (MASTER_INDEX env) (expanded_k request),
                Bm25Search (query request) (MASTER_INDEX env) (expanded_k request)] \<and>
             results rr = []
           else
             fst (hybrid_search_reranked env request) =
               [EmbedQuery (query request),
                SimilaritySearch qv (MASTER_INDEX env) (expanded_k request),
                Bm25Search (query request) (MASTER_INDEX env) (expanded_k request),
                RerankResults (query request) ?cs (top_k request)] \<and>
             rerank_results env (query request) ?cs (top_k request) = Inr (results rr)"
  proof (cases "?cs = []")
    case True
    with run e s b show ?thesis
      by (auto simp: hybrid_search_reranked_def Let_def to_response_def)
  next
    case False
    with run e s b show ?thesis
      by (cases "rerank_results env (query request) ?cs (top_k request)")
        (auto simp: hybrid_search_reranked_def Let_def to_response_def)
  qed
  have sel: "selection_of (results rr) ?cs \<longrightarrow> distinct (map identity_key (results rr))"
    using d by (auto intro: selection_distinct)
  from e s b d tr sel show "\<exists>qv vs' bs'.
          embed_query env (query request) = Inr qv \<and>
          similarity_search env qv (MASTER_INDEX env) (expanded_k request) = Inr vs' \<and>
          bm25_search env (query request) (MASTER_INDEX env) (expanded_k request) = Inr bs' \<and>
          distinct (map identity_key (combine_docs vs' bs')) \<and>
          (if combine_docs vs' bs' = [] then
             fst (hybrid_search_reranked env request) =
               [EmbedQuery (query request),
                SimilaritySearch qv (MASTER_INDEX env) (expanded_k request),
                Bm25Search (query request) (MASTER_INDEX env) (expanded_k request)] \<and>
             results rr = []
           else
             fst (hybrid_search_reranked env request) =
               [EmbedQuery (query request),
                SimilaritySearch qv (MASTER_INDEX env) (expanded_k request),
                Bm25Search (query request) (MASTER_INDEX env) (expanded_k request),
                RerankResults (query request) (combine_docs vs' bs') (top_k request)] \<and>
             rerank_results env (query request) (combine_docs vs' bs') (top_k request) =
               Inr (results rr)) \<and>
          (selection_of (results rr) (combine_docs vs' bs') \<longrightarrow>
             distinct (map identity_key (results rr)))"
    by (intro exI [of _ qv] exI [of _ vs'] exI [of _ bs'] conjI)
qed

text \<open>The theorem with the lists of the scenario for every collaborator.\<close>

theorem response_identities_witness:
  "snd (vector_search (fixed_env scenario_vector scenario_bm25 scenario_vector) alpha_request) =
     Inr \<lparr>results = scenario_vector\<rparr> \<and>
   similarity_search (fixed_env scenario_vector scenario_bm25 scenario_vector) [1, 0] ''master'' 3 =
     Inr scenario_vector \<and>
   snd (keyword_search (fixed_env scenario_vector scenario_bm25 scenario_vector) alpha_request) =
     Inr \<lparr>results = [hit ''d1'' 0 1 ''bm25'', hit ''d3'' 0 (3 / 4) ''bm25'']\<rparr> \<and>
   map identity_key [hit ''d1'' 0 1 ''bm25'', hit ''d3'' 0 (3 / 4) ''bm25''] =
     map identity_key scenario_bm25 \<and>
   snd (hybrid_search_native (fixed_env scenario_vector scenario_bm25 scenario_vector) alpha_request) =
     Inr \<lparr>results = scenario_vector\<rparr> \<and>
   hybrid_search_reranked (fixed_env scenario_vector scenario_bm25 scenario_vector) alpha_request =
     ([EmbedQuery ''alpha'', SimilaritySearch [1, 0] ''master'' 30, Bm25Search ''alpha'' ''master'' 30,
       RerankResults ''alpha''
         [hit ''d1'' 0 0.9 ''vector'', hit ''d2'' 0 0.8 ''vector'', hit ''d3'' 0 9 ''bm25''] 3],
      Inr \<lparr>results = [hit ''d1'' 0 0.9 ''vector'', hit ''d2'' 0 0.8 ''vector'', hit ''d3'' 0 9 ''bm25'']\<rparr>) \<and>
   selection_of [hit ''d1'' 0 0.9 ''vector'', hit ''d2'' 0 0.8 ''vector'', hit ''d3'' 0 9 ''bm25'']
     (combine_docs scenario_vector scenario_bm25) \<and>
   distinct (map identity_key
     [hit ''d1'' 0 0.9 ''vector'', hit ''d2'' 0 0.8 ''vector'', hit ''d3'' 0 9 ''bm25'']) \<and>
   distinct (map identity_key (combine_docs scenario_vector scenario_bm25))"
proof -
  let ?env = "fixed_env scenario_vector scenario_bm25 scenario_vector"
  let ?kw = "[hit ''d1'' 0 1 ''bm25'', hit ''d3'' 0 (3 / 4) ''bm25'']"
  let ?res = "[hit ''d1'' 0 0.9 ''vector'', hit ''d2'' 0 0.8 ''vector'', hit ''d3'' 0 9 ''bm25'']"
  have v: "snd (vector_search ?env alpha_request) = Inr \<lparr>results = scenario_vector\<rparr>"
    by (simp add: vector_search_def fixed_env_def to_response_def)
  have s: "similarity_search ?env [1, 0] ''master'' 3 = Inr scenario_vector"
    by (simp add: fixed_env_def)
  have k: "snd (keyword_search ?env alpha_request) = Inr \<lparr>results = ?kw\<rparr>"
    by (simp add: keyword_search_def fixed_env_def normalize_scores_def scenario_bm25_def hit_def
        to_response_def float_of_real_one float_of_real_three_quarters)
  have n: "snd (hybrid_search_native ?env alpha_request) = Inr \<lparr>results = scenario_vector\<rparr>"
    by (simp add: hybrid_search_native_def fixed_env_def to_response_def)
  have r: "hybrid_search_reranked ?env alpha_request =
     ([EmbedQuery ''alpha'', SimilaritySearch [1, 0] ''master'' 30, Bm25Search ''alpha'' ''master'' 30,
       RerankResults ''alpha'' ?res 3], Inr \<lparr>results = ?res\<rparr>)"
    by (simp add: hybrid_search_reranked_def Let_def scenario_combined fixed_env_def to_response_def
        alpha_request_def expanded_k_def)
  have sel: "selection_of ?res (combine_docs scenario_vector scenario_bm25)"
    by (simp add: scenario_combined selection_of_def identity_key_def hit_def)
  note main = response_identities [of scenario_vector scenario_bm25 ?env alpha_request
      "\<lparr>results = scenario_vector\<rparr>" "\<lparr>results = ?kw\<rparr>" "\<lparr>results = scenario_vector\<rparr>"
      "\<lparr>results = ?res\<rparr>"]
  from main have d: "distinct (map identity_key (combine_docs scenario_vector scenario_bm25))"
    by blast
  from main k obtain rs
    where "bm25_search ?env (query alpha_request) (MASTER_INDEX ?env) (top_k alpha_request) = Inr rs"
      and "map identity_key (results \<lparr>results = ?kw\<rparr>) = map identity_key rs"
    by blast
  then have i: "map identity_key ?kw = map identity_key scenario_bm25"
    by (simp add: fixed_env_def)
  from r have "snd (hybrid_search_reranked ?env alpha_request) = Inr \<lparr>results = ?res\<rparr>"
    by simp
  with main obtain qv vs' bs'
    where "similarity_search ?env qv (MASTER_INDEX ?env) (expanded_k alpha_request) = Inr vs'"
      and "bm25_search ?env (query alpha_request) (MASTER_INDEX ?env) (expanded_k alpha_request) = Inr bs'"
      and "selection_of (results \<lparr>results = ?res\<rparr>) (combine_docs vs' bs') \<longrightarrow>
             distinct (map identity_key (results \<lparr>results = ?res\<rparr>))"
    by blast
  then have "selection_of ?res (combine_docs scenario_vector scenario_bm25) \<longrightarrow>
      distinct (map identity_key ?res)"
    by (simp add: fixed_env_def)
  with sel have dr: "distinct (map identity_key ?res)"
    by blast
  show ?thesis
    by (intro conjI) (rule v, rule s, rule k, rule i, rule n, rule r, rule sel, rule dr, rule d)
qed

text \<open>
  Claim C5 as stated asks for a response without duplicates in every mode and on every
  input. Vector mode wraps what the similarity search returns: two hits of the
  identity \<open>(d1, 0)\<close> in that list are two hits of it in the response. Reranked hybrid
  mode wraps what the reranker returns: a reranker that returns its first candidate
  twice gives a response with that candidate twice.
\<close>

theorem duplicate_response_counterexample:
  "snd (vector_search
      (fixed_env [hit ''d1'' 0 0.9 ''first'', hit ''d1'' 0 0.7 ''second''] [] []) alpha_request) =
     Inr \<lparr>results = [hit ''d1'' 0 0.9 ''first'', hit ''d1'' 0 0.7 ''second'']\<rparr> \<and>
   identity_key (hit ''d1'' 0 0.9 ''first'') = identity_key (hit ''d1'' 0 0.7 ''second'') \<and>
   snd (hybrid_search_reranked (repeating_reranker_env scenario_vector scenario_bm25) alpha_request) =
     Inr \<lparr>results = [hit ''d1'' 0 0.9 ''vector'', hit ''d1'' 0 0.9 ''vector'']\<rparr>"
  by (simp add: vector_search_def fixed_env_def to_response_def identity_key_def hit_def
      hybrid_search_reranked_def Let_def scenario_combined [unfolded hit_def] repeating_reranker_env_def)

section \<open>Claims on invalid requests\<close>

text \<open>
  Claim C9. In every search mode a request with an empty query or a \<^verbatim>\<open>top_k\<close> that
  is not positive is rejected as a client-input error, and no collaborator has been
  called: the trace of calls is empty. The check is the one of \<open>search\<close>, modelled
  from the specification.
\<close>

theorem search_rejects_invalid_request:
  assumes "query request = [] \<or> top_k request \<le> 0"
  shows "search m env request = ([], Inl ClientInputError)"
  using assms by (auto simp: search_def valid_request_def)

text \<open>The theorem at an empty query and at a \<^verbatim>\<open>top_k\<close> of 0.\<close>

theorem search_rejects_invalid_request_witness:
  "search VectorMode (fixed_env scenario_vector scenario_bm25 []) \<lparr>query = [], top_k = 3\<rparr> =
     ([], Inl ClientInputError) \<and>
   search RerankedHybridMode (fixed_env scenario_vector scenario_bm25 []) \<lparr>query = ''alpha'', top_k = 0\<rparr> =
     ([], Inl ClientInputError)"
proof -
  have a: "query \<lparr>query = [], top_k = 3\<rparr> = [] \<or> top_k \<lparr>query = [], top_k = 3\<rparr> \<le> 0"
    by simp
  have b: "query \<lparr>query = ''alpha'', top_k = 0\<rparr> = [] \<or> top_k \<lparr>query = ''alpha'', top_k = 0\<rparr> \<le> 0"
    by simp
  from search_rejects_invalid_request [OF a] search_rejects_invalid_request [OF b]
  show ?thesis by (intro conjI)
qed

end
